theory Spec2Isabelle
  imports Main "HOL-Library.Word" "HOL-Library.Sublist"
begin

section \<open>C strings and the libc calls of magiskinit.c\<close>

text \<open>
  A C buffer is a list of bytes (\<open>char\<close>); the string it holds is what precedes the first
  NUL. Undefined behaviour of the C program (a write outside a fixed buffer, an access
  outside a mapping, a read through a failed mapping or a NULL directory stream) is a
  value of type \<open>fault\<close>: functions that can reach it return \<open>fault + 'a\<close>.
\<close>

datatype fault = OutOfBounds | BufferOverflow | NullDir | MapFailed

definition NUL :: char where
  "NUL = CHR 0x00"

definition cstr :: "string \<Rightarrow> string" where
  "cstr buf = takeWhile (\<lambda>c. c \<noteq> NUL) buf"

text \<open>\<open>isspace\<close> in the C locale: space, \<open>\t\<close>, \<open>\n\<close>, \<open>\v\<close>, \<open>\f\<close>, \<open>\r\<close>.\<close>

definition isspace :: "char \<Rightarrow> bool" where
  "isspace c = (c = CHR '' '' \<or> c = CHR 0x09 \<or> c = CHR 0x0A \<or> c = CHR 0x0B
                \<or> c = CHR 0x0C \<or> c = CHR 0x0D)"

definition isdigit :: "char \<Rightarrow> bool" where
  "isdigit c = (48 \<le> (of_char c :: nat) \<and> (of_char c :: nat) \<le> 57)"

text \<open>
  \<open>strtok(buf, d)\<close> followed by \<open>strtok(NULL, d)\<close> until NULL, for a one-character
  delimiter string: runs of the delimiter are skipped, so the tokens are the non-empty
  fields of the string, in order.
\<close>

fun split_fields :: "char \<Rightarrow> string \<Rightarrow> string list" where
  "split_fields d [] = [[]]"
| "split_fields d (c # cs) =
     (if c = d then [] # split_fields d cs
      else (case split_fields d cs of [] \<Rightarrow> [[c]] | t # ts \<Rightarrow> (c # t) # ts))"

definition strtok_all :: "char \<Rightarrow> string \<Rightarrow> string list" where
  "strtok_all d s = filter (\<lambda>t. t \<noteq> []) (split_fields d s)"

text \<open>
  \<open>strncmp(a, b, n) == 0\<close> on NUL-free strings: the first \<open>n\<close> characters agree
  (a string shorter than \<open>n\<close> must then be the whole of the other).
\<close>

definition strncmp_eq :: "string \<Rightarrow> string \<Rightarrow> nat \<Rightarrow> bool" where
  "strncmp_eq a b n = (take n a = take n b)"

text \<open>
  \<open>sscanf\<close>, one piece per kind of directive the program uses. Ordinary format characters
  must match the input one by one; \<open>%s\<close> skips white space and takes the run of
  non-white characters (an input failure, assigning nothing, when none is left);
  \<open>%c\<close> takes the next character, white or not; \<open>%ld\<close> skips white space and takes an
  optionally signed run of decimal digits, whose value \<open>scan_ld\<close> gives as a number (what
  is stored into the \<open>long\<close> is decided where the conversion is used). \<open>None\<close> is "nothing
  assigned".
\<close>

fun match_lit :: "string \<Rightarrow> string \<Rightarrow> string option" where
  "match_lit [] s = Some s"
| "match_lit (f # fs) [] = None"
| "match_lit (f # fs) (c # cs) = (if f = c then match_lit fs cs else None)"

definition scan_s :: "string \<Rightarrow> string option" where
  "scan_s s =
     (let w = takeWhile (\<lambda>c. \<not> isspace c) (dropWhile isspace s)
      in if w = [] then None else Some w)"

definition scan_c :: "string \<Rightarrow> char option" where
  "scan_c s = (case s of [] \<Rightarrow> None | c # _ \<Rightarrow> Some c)"

definition dec_val :: "string \<Rightarrow> int" where
  "dec_val ds = foldl (\<lambda>a c. 10 * a + (int (of_char c) - 48)) 0 ds"

definition scan_ld :: "string \<Rightarrow> int option" where
  "scan_ld s =
     (let r = dropWhile isspace s;
          neg = (case r of [] \<Rightarrow> False | c # _ \<Rightarrow> c = CHR ''-'');
          r' = (case r of [] \<Rightarrow> [] | c # t \<Rightarrow> if c = CHR ''-'' \<or> c = CHR ''+'' then t else r);
          ds = takeWhile isdigit r'
      in if ds = [] then None else Some (if neg then - dec_val ds else dec_val ds))"

definition sscanf_s :: "string \<Rightarrow> string \<Rightarrow> string option" where
  "sscanf_s fmt s = (case match_lit fmt s of None \<Rightarrow> None | Some r \<Rightarrow> scan_s r)"

definition sscanf_c :: "string \<Rightarrow> string \<Rightarrow> char option" where
  "sscanf_c fmt s = (case match_lit fmt s of None \<Rightarrow> None | Some r \<Rightarrow> scan_c r)"

definition sscanf_ld :: "string \<Rightarrow> string \<Rightarrow> int option" where
  "sscanf_ld fmt s = (case match_lit fmt s of None \<Rightarrow> None | Some r \<Rightarrow> scan_ld r)"

text \<open>
  \<open>%s\<close> into a \<open>char[n]\<close>: the word and its terminating NUL must fit; the bytes of the
  buffer behind them stay.
\<close>

definition store_str :: "nat \<Rightarrow> string \<Rightarrow> string \<Rightarrow> fault + string" where
  "store_str n buf w =
     (if length w + 1 \<le> n then Inr (w @ [NUL] @ drop (length w + 1) buf)
      else Inl BufferOverflow)"

text \<open>
  The idiom \<open>buf[read(fd, buf, n)] = '\0'\<close> on a \<open>char buf[n]\<close>. The file's content is
  \<open>None\<close> when it cannot be opened: \<open>read\<close> then returns -1 and the store hits \<open>buf[-1]\<close>;
  a file of \<open>n\<close> bytes or more fills the buffer and the store hits \<open>buf[n]\<close>. Otherwise the
  buffer holds the content as a C string.
\<close>

definition read_buf :: "nat \<Rightarrow> string option \<Rightarrow> fault + string" where
  "read_buf n content =
     (case content of
        None \<Rightarrow> Inl OutOfBounds
      | Some data \<Rightarrow> if n \<le> length data then Inl OutOfBounds else Inr (cstr data))"

section \<open>parse_cmdline\<close>

text \<open>
  \<open>struct cmdline { char skip_initramfs; char slot[3]; }\<close>. The \<open>memset\<close> at the head of
  \<open>parse_cmdline\<close> has length \<open>sizeof(&cmd)\<close>, a pointer's size, which is at least the
  four bytes of the struct: every field starts out zero.

  \<open>parse_cmdline\<close> below is the function from the text of \<open>/proc/cmdline\<close> on (lines 77 and
  83 to 95 of the source); mounting and unmounting \<open>/proc\<close> around the read is
  \<open>read_cmdline\<close> further down.
\<close>

record cmdline =
  skip_initramfs :: "8 word"
  slot :: string

definition cmdline_zero :: cmdline where
  "cmdline_zero = \<lparr>skip_initramfs = 0, slot = [NUL, NUL, NUL]\<rparr>"

definition cmdline_token :: "cmdline \<Rightarrow> string \<Rightarrow> fault + cmdline" where
  "cmdline_token cmd tok =
     (if strncmp_eq tok ''androidboot.slot_suffix'' 23 then
        (case sscanf_s ''androidboot.slot_suffix='' tok of
           None \<Rightarrow> Inr cmd
         | Some w \<Rightarrow>
             (case store_str 3 (slot cmd) w of
                Inl e \<Rightarrow> Inl e
              | Inr b \<Rightarrow> Inr (cmd\<lparr>slot := b\<rparr>)))
      else if strncmp_eq tok ''androidboot.slot'' 16 then
        (let cmd1 = cmd\<lparr>slot := (slot cmd)[0 := CHR ''_'']\<rparr>
         in case sscanf_c ''androidboot.slot='' tok of
              None \<Rightarrow> Inr cmd1
            | Some c \<Rightarrow> Inr (cmd1\<lparr>slot := (slot cmd1)[1 := c]\<rparr>))
      else if tok = ''skip_initramfs'' then Inr (cmd\<lparr>skip_initramfs := 1\<rparr>)
      else Inr cmd)"

fun cmdline_loop :: "cmdline \<Rightarrow> string list \<Rightarrow> fault + cmdline" where
  "cmdline_loop cmd [] = Inr cmd"
| "cmdline_loop cmd (tok # toks) =
     (case cmdline_token cmd tok of
        Inl e \<Rightarrow> Inl e
      | Inr cmd' \<Rightarrow> cmdline_loop cmd' toks)"

definition parse_cmdline :: "string option \<Rightarrow> fault + cmdline" where
  "parse_cmdline content =
     (case read_buf 4096 content of
        Inl e \<Rightarrow> Inl e
      | Inr s \<Rightarrow> cmdline_loop cmdline_zero (strtok_all CHR '' '' s))"

text \<open>
  The invariant of the token loop: \<open>slot\<close> is a three-byte buffer whose last byte is NUL,
  so the buffer always holds a terminated C string.
\<close>

definition slot_ok :: "cmdline \<Rightarrow> bool" where
  "slot_ok cmd = (length (slot cmd) = 3 \<and> slot cmd ! 2 = NUL)"

section \<open>The file system\<close>

text \<open>
  The program runs alone, as root, before any other process exists, and talks to the
  kernel through absolute paths. The model keeps what those calls can observe: a list of
  directory entries (absolute path and inode number, in the order \<open>readdir\<close> enumerates
  them), the inodes, and the next free inode number. Two entries with one inode number
  are hard links. Paths are taken as resolved: a symbolic link to a directory stands for
  the directory. Permission bits are stored and never checked (root passes every check),
  so \<open>access(p, R_OK)\<close> and \<open>access(p, F_OK)\<close> both ask whether \<open>p\<close> exists. A device
  node keeps its mode and its device number, the value of \<open>makedev(major, minor)\<close>.
\<close>

type_synonym path = string

datatype inode =
    Regular nat string
  | Directory nat
  | BlockDev nat int
  | CharDev nat int

record fsys =
  names :: "(path \<times> nat) list"
  inodes :: "nat \<Rightarrow> inode option"
  next_ino :: nat

definition mode_0 :: nat where "mode_0 = 0"
definition mode_0555 :: nat where "mode_0555 = 5 * 64 + 5 * 8 + 5"
definition mode_0600 :: nat where "mode_0600 = 6 * 64"
definition mode_0666 :: nat where "mode_0666 = 6 * 64 + 6 * 8 + 6"
definition mode_0750 :: nat where "mode_0750 = 7 * 64 + 5 * 8"
definition mode_0755 :: nat where "mode_0755 = 7 * 64 + 5 * 8 + 5"

definition dirname :: "path \<Rightarrow> path" where
  "dirname p =
     (let q = rev (dropWhile (\<lambda>c. c \<noteq> CHR ''/'') (rev p))
      in if q = ''/'' then ''/'' else butlast q)"

definition basename :: "path \<Rightarrow> string" where
  "basename p = rev (takeWhile (\<lambda>c. c \<noteq> CHR ''/'') (rev p))"

definition ino_of :: "fsys \<Rightarrow> path \<Rightarrow> nat option" where
  "ino_of fs p = map_of (names fs) p"

definition lookup :: "fsys \<Rightarrow> path \<Rightarrow> inode option" where
  "lookup fs p = (case ino_of fs p of None \<Rightarrow> None | Some i \<Rightarrow> inodes fs i)"

definition is_dir :: "fsys \<Rightarrow> path \<Rightarrow> bool" where
  "is_dir fs p = (case lookup fs p of Some (Directory m) \<Rightarrow> True | _ \<Rightarrow> False)"

definition access :: "fsys \<Rightarrow> path \<Rightarrow> bool" where
  "access fs p = (lookup fs p \<noteq> None)"

definition file_content :: "fsys \<Rightarrow> path \<Rightarrow> string option" where
  "file_content fs p = (case lookup fs p of Some (Regular m d) \<Rightarrow> Some d | _ \<Rightarrow> None)"

text \<open>A new entry needs a free name in an existing directory.\<close>

definition can_create :: "fsys \<Rightarrow> path \<Rightarrow> bool" where
  "can_create fs p = (ino_of fs p = None \<and> is_dir fs (dirname p))"

definition new_node :: "fsys \<Rightarrow> path \<Rightarrow> inode \<Rightarrow> fsys" where
  "new_node fs p n =
     fs\<lparr>names := names fs @ [(p, next_ino fs)],
        inodes := (inodes fs)(next_ino fs \<mapsto> n),
        next_ino := Suc (next_ino fs)\<rparr>"

definition mkdir :: "fsys \<Rightarrow> path \<Rightarrow> nat \<Rightarrow> fsys" where
  "mkdir fs p m = (if can_create fs p then new_node fs p (Directory m) else fs)"

definition mknod :: "fsys \<Rightarrow> path \<Rightarrow> inode \<Rightarrow> fsys" where
  "mknod fs p n = (if can_create fs p then new_node fs p n else fs)"

definition unlink :: "fsys \<Rightarrow> path \<Rightarrow> fsys" where
  "unlink fs p =
     (if ino_of fs p = None \<or> is_dir fs p then fs
      else fs\<lparr>names := filter (\<lambda>e. fst e \<noteq> p) (names fs)\<rparr>)"

definition link :: "fsys \<Rightarrow> path \<Rightarrow> path \<Rightarrow> fsys" where
  "link fs old new =
     (case ino_of fs old of
        None \<Rightarrow> fs
      | Some i \<Rightarrow>
          if is_dir fs old \<or> \<not> can_create fs new then fs
          else fs\<lparr>names := names fs @ [(new, i)]\<rparr>)"

text \<open>
  \<open>rename\<close> of a name that is not a directory (the program renames the regular file
  \<open>/init.bak\<close>): the entry moves, replacing a non-directory at the new name.
\<close>

definition rename :: "fsys \<Rightarrow> path \<Rightarrow> path \<Rightarrow> fsys" where
  "rename fs old new =
     (case ino_of fs old of
        None \<Rightarrow> fs
      | Some i \<Rightarrow>
          if is_dir fs old \<or> is_dir fs new \<or> \<not> is_dir fs (dirname new) then fs
          else fs\<lparr>names := filter (\<lambda>e. fst e \<noteq> old \<and> fst e \<noteq> new) (names fs) @ [(new, i)]\<rparr>)"

definition rmdir :: "fsys \<Rightarrow> path \<Rightarrow> fsys" where
  "rmdir fs p =
     (if is_dir fs p \<and> list_all (\<lambda>e. fst e = ''/'' \<or> dirname (fst e) \<noteq> p) (names fs)
      then fs\<lparr>names := filter (\<lambda>e. fst e \<noteq> p) (names fs)\<rparr> else fs)"

text \<open>
  \<open>creat(p, mode)\<close> is \<open>open(p, O_CREAT | O_WRONLY | O_TRUNC, mode)\<close>; the process runs
  under \<open>umask(0)\<close>, so a new file gets exactly \<open>mode\<close>. An existing regular file is
  truncated and keeps its inode and mode. The descriptor is the inode number, \<open>None\<close>
  for -1. \<open>write\<close> on a descriptor appends (the program never seeks); on -1 it does
  nothing.
\<close>

definition creat :: "fsys \<Rightarrow> path \<Rightarrow> nat \<Rightarrow> nat option \<times> fsys" where
  "creat fs p m =
     (case ino_of fs p of
        None \<Rightarrow>
          if is_dir fs (dirname p) then (Some (next_ino fs), new_node fs p (Regular m []))
          else (None, fs)
      | Some i \<Rightarrow>
          (case inodes fs i of
             Some (Regular m0 d) \<Rightarrow> (Some i, fs\<lparr>inodes := (inodes fs)(i \<mapsto> Regular m0 [])\<rparr>)
           | Some (BlockDev m0 d) \<Rightarrow> (Some i, fs)
           | Some (CharDev m0 d) \<Rightarrow> (Some i, fs)
           | _ \<Rightarrow> (None, fs)))"

definition write_fd :: "fsys \<Rightarrow> nat option \<Rightarrow> string \<Rightarrow> fsys" where
  "write_fd fs fd buf =
     (case fd of
        None \<Rightarrow> fs
      | Some i \<Rightarrow>
          (case inodes fs i of
             Some (Regular m d) \<Rightarrow> fs\<lparr>inodes := (inodes fs)(i \<mapsto> Regular m (d @ buf))\<rparr>
           | _ \<Rightarrow> fs))"

text \<open>
  \<open>opendir\<close> and \<open>readdir\<close>: the stream of a directory gives \<open>.\<close>, \<open>..\<close> and the base names
  of its entries, in the order of the entry list; \<open>None\<close> is the NULL stream.
\<close>

definition readdir :: "fsys \<Rightarrow> path \<Rightarrow> string list option" where
  "readdir fs p =
     (if is_dir fs p
      then Some (''.'' # ''..'' #
             map (\<lambda>e. basename (fst e))
               (filter (\<lambda>e. fst e \<noteq> ''/'' \<and> dirname (fst e) = p) (names fs)))
      else None)"

text \<open>
  Modelled from the spec: \<open>mmap_rw\<close>, \<open>mmap_ro\<close> and \<open>full_read\<close> are helpers of the
  repository's utilities, not in this file. The spec has them map (or read) the whole
  image of the file; a file that cannot be mapped takes the program down at the first
  access. A store through a read-write mapping lands in the file, whose length stays.
\<close>

definition mmap_file :: "fsys \<Rightarrow> path \<Rightarrow> fault + string" where
  "mmap_file fs p = (case file_content fs p of None \<Rightarrow> Inl MapFailed | Some d \<Rightarrow> Inr d)"

definition munmap_rw :: "fsys \<Rightarrow> path \<Rightarrow> string \<Rightarrow> fsys" where
  "munmap_rw fs p buf =
     (case ino_of fs p of
        None \<Rightarrow> fs
      | Some i \<Rightarrow>
          (case inodes fs i of
             Some (Regular m d) \<Rightarrow> fs\<lparr>inodes := (inodes fs)(i \<mapsto> Regular m buf)\<rparr>
           | _ \<Rightarrow> fs))"

text \<open>
  Memory behind a mapping. \<open>mmap\<close> maps whole pages: behind the image of the file the
  process finds the zero fill of the last page and then whatever the kernel has mapped
  next. In the functions below \<open>mem\<close> is the image followed by the bytes that can be
  accessed behind it (a parameter of the surroundings, \<open>behind\<close> further down).
  \<open>memcmp(mem + i, pat, n)\<close> compares \<open>n\<close> bytes and \<open>memcpy(mem + off, src, n)\<close> stores \<open>n\<close>
  bytes; a call whose \<open>n\<close> bytes do not all lie inside \<open>mem\<close> has undefined behaviour
  (the kernel may end the process there), and so has a store in front of the mapping.
  The offset of the store is computed in C and may be negative.
\<close>

definition memcmp_at :: "string \<Rightarrow> nat \<Rightarrow> string \<Rightarrow> fault + bool" where
  "memcmp_at mem i pat =
     (if i + length pat \<le> length mem then Inr (take (length pat) (drop i mem) = pat)
      else Inl OutOfBounds)"

definition memcpy_at :: "string \<Rightarrow> int \<Rightarrow> string \<Rightarrow> nat \<Rightarrow> fault + string" where
  "memcpy_at mem off src n =
     (if 0 \<le> off \<and> nat off + n \<le> length mem \<and> n \<le> length src
      then Inr (take (nat off) mem @ take n src @ drop (nat off + n) mem)
      else Inl OutOfBounds)"

text \<open>
  The scan \<open>for (int i = 0; i < size; ++i) if (memcmp(...) == 0) { ...; break; }\<close>, where
  \<open>size\<close> is the length of the image: every offset below \<open>size\<close> is tried in turn, also
  those where the pattern reaches behind the image. The result is the first offset where
  the pattern stands, \<open>None\<close> when the loop runs out. \<open>find_from mem pat i k\<close> has \<open>k\<close>
  offsets left to try from \<open>i\<close> on.
\<close>

fun find_from :: "string \<Rightarrow> string \<Rightarrow> nat \<Rightarrow> nat \<Rightarrow> fault + nat option" where
  "find_from mem pat i 0 = Inr None"
| "find_from mem pat i (Suc k) =
     (case memcmp_at mem i pat of
        Inl x \<Rightarrow> Inl x
      | Inr True \<Rightarrow> Inr (Some i)
      | Inr False \<Rightarrow> find_from mem pat (Suc i) k)"

definition find_first :: "string \<Rightarrow> nat \<Rightarrow> string \<Rightarrow> fault + nat option" where
  "find_first mem sz pat = find_from mem pat 0 sz"

section \<open>The program's surroundings\<close>

text \<open>
  Calls that leave this file: the policy library (\<open>load_policydb\<close>, \<open>sepol_magisk_rules\<close>,
  \<open>dump_policydb\<close>), the CIL compiler, the archive codec (\<open>parse_cpio\<close>,
  \<open>cpio_extract_all\<close>), the directory helpers (\<open>frm_rf\<close>, \<open>clone_dir\<close>, \<open>mv_dir\<close>), \<open>mount\<close>,
  \<open>umount\<close> and \<open>execv\<close>. Each is recorded as an event in the order of the calls; what it
  does to the file system is a parameter (\<open>effect\<close>).
\<close>

datatype mount_flag = MS_NONE | MS_RDONLY | MS_BIND

datatype event =
    Mount string path string mount_flag
  | Umount path
  | FrmRf path "string list"
  | CloneDir path path "string list"
  | MvDir path path
  | ParseCpio path
  | CpioExtractAll
  | LoadPolicydb path
  | CilDbInit
  | CilAddFile path
  | CilCompile
  | CilBuildPolicydb
  | CilDbDestroy
  | SepolMagiskRules
  | DumpPolicydb path
  | Execv path "string list"

datatype lzma_ret = LZMA_OK | LZMA_STREAM_END | LZMA_FAIL

text \<open>
  What the headers, the build and the linked libraries provide. The path macros
  (\<open>SPLIT_PLAT_CIL\<close> and the others), \<open>SOCKET_NAME\<close> come from headers
  that are not in this file; \<open>magisk_dump\<close> and \<open>magiskrc\<close> are the arrays of \<open>dump.h\<close> and
  \<open>magiskrc.h\<close> (every byte \<open>sizeof\<close> counts). \<open>SPLIT_PLAT_MAPPING\<close> is a format with one
  \<open>%s\<close>, kept as the function of the string put in. \<open>lzma_code\<close> gives, for an input,
  the output and return code of each successive call of liblzma's \<open>lzma_code\<close>;
  \<open>gen_rand_str\<close> gives the bytes the \<open>k\<close>-th call leaves in its buffer; \<open>ven_sha_stack\<close>
  is what the stack holds in \<open>ven_sha[1..69]\<close> when \<open>verify_precompiled\<close> starts.
  \<open>LONG_MIN\<close> and \<open>LONG_MAX\<close> are the limits of \<open>long\<close> and \<open>makedev\<close> is the macro of the
  system headers that packs a major and a minor number into a device number.
  \<open>behind\<close> gives, for the image of a mapped file, the bytes that follow it in the address
  space and can be accessed: the zero fill of the mapping's last page, then what the
  kernel has mapped next. A store there does not reach the file.
\<close>

record env =
  SPLIT_PLAT_CIL :: path
  SPLIT_PLAT_MAPPING :: "string \<Rightarrow> path"
  SPLIT_PRECOMPILE :: path
  SPLIT_NONPLAT_VER :: path
  PLAT_POLICY_DIR :: path
  NONPLAT_POLICY_DIR :: path
  SOCKET_NAME :: string
  magisk_dump :: string
  magiskrc :: string
  effect :: "event \<Rightarrow> fsys \<Rightarrow> fsys"
  patch_init_rc :: "string \<Rightarrow> string"
  lzma_auto_decoder :: lzma_ret
  lzma_code :: "string \<Rightarrow> (string \<times> lzma_ret) list"
  gen_rand_str :: "nat \<Rightarrow> nat \<Rightarrow> string"
  ven_sha_stack :: string
  LONG_MIN :: int
  LONG_MAX :: int
  makedev :: "int \<Rightarrow> int \<Rightarrow> int"
  behind :: "string \<Rightarrow> string"

text \<open>
  The state the program threads through its calls: the file system, the events so far,
  the file-scope variables \<open>SOCKET_OFF\<close> and \<open>excl_list\<close>, and how many times
  \<open>gen_rand_str\<close> has run.
\<close>

record world =
  filesys :: fsys
  trace :: "event list"
  SOCKET_OFF :: int
  excl_list :: "string list"
  rand_calls :: nat

definition call :: "env \<Rightarrow> event \<Rightarrow> world \<Rightarrow> world" where
  "call e ev w = w\<lparr>filesys := effect e ev (filesys w), trace := trace w @ [ev]\<rparr>"

text \<open>
  \<open>mmap_rw\<close> of a file with image \<open>img\<close> gives the process the memory \<open>mapped e img\<close>;
  at \<open>munmap(addr, size)\<close> the file holds the first \<open>size\<close> bytes of that memory.
\<close>

definition mapped :: "env \<Rightarrow> string \<Rightarrow> string" where
  "mapped e img = img @ behind e img"

definition unmapped :: "nat \<Rightarrow> string \<Rightarrow> string" where
  "unmapped sz mem = take sz mem"

section \<open>parse_device and setup_block\<close>

text \<open>
  \<open>struct device { dev_t major, minor; char devname[32], partname[32], path[64]; }\<close>.
  \<open>%ld\<close> stores through a \<open>long *\<close> that points at the \<open>dev_t\<close>: the number kept is the
  \<open>long\<close> that \<open>sscanf\<close> stores. The conversion is that of \<open>strtol\<close>: a value outside the
  range of \<open>long\<close> is stored as \<open>LONG_MAX\<close> or \<open>LONG_MIN\<close>. The three buffers are kept as
  the C strings they hold, and a \<open>%s\<close> whose word and NUL do not fit the 32 bytes is a
  fault. \<open>main\<close> declares its \<open>struct device\<close> without initialising it and hands the same
  struct to both calls of \<open>setup_block\<close>, so the incoming field values are arguments.
\<close>

record device =
  major :: int
  minor :: int
  devname :: string
  partname :: string
  path :: string

definition to_long :: "env \<Rightarrow> int \<Rightarrow> int" where
  "to_long e v = (if v < LONG_MIN e then LONG_MIN e else if LONG_MAX e < v then LONG_MAX e else v)"

definition device_line :: "env \<Rightarrow> device \<Rightarrow> string \<Rightarrow> fault + device" where
  "device_line e dev tok =
     (if strncmp_eq tok ''MAJOR'' 5 then
        (case sscanf_ld ''MAJOR='' tok of
           None \<Rightarrow> Inr dev
         | Some v \<Rightarrow> Inr (dev\<lparr>major := to_long e v\<rparr>))
      else if strncmp_eq tok ''MINOR'' 5 then
        (case sscanf_ld ''MINOR='' tok of
           None \<Rightarrow> Inr dev
         | Some v \<Rightarrow> Inr (dev\<lparr>minor := to_long e v\<rparr>))
      else if strncmp_eq tok ''DEVNAME'' 7 then
        (case sscanf_s ''DEVNAME='' tok of
           None \<Rightarrow> Inr dev
         | Some w \<Rightarrow> if length w + 1 \<le> 32 then Inr (dev\<lparr>devname := w\<rparr>) else Inl BufferOverflow)
      else if strncmp_eq tok ''PARTNAME'' 8 then
        (case sscanf_s ''PARTNAME='' tok of
           None \<Rightarrow> Inr dev
         | Some w \<Rightarrow> if length w + 1 \<le> 32 then Inr (dev\<lparr>partname := w\<rparr>) else Inl BufferOverflow)
      else Inr dev)"

fun device_loop :: "env \<Rightarrow> device \<Rightarrow> string list \<Rightarrow> fault + device" where
  "device_loop e dev [] = Inr dev"
| "device_loop e dev (tok # toks) =
     (case device_line e dev tok of
        Inl x \<Rightarrow> Inl x
      | Inr dev' \<Rightarrow> device_loop e dev' toks)"

definition parse_device :: "env \<Rightarrow> device \<Rightarrow> string \<Rightarrow> fault + device" where
  "parse_device e dev uevent =
     device_loop e (dev\<lparr>partname := []\<rparr>) (strtok_all (CHR 0x0A) uevent)"

text \<open>
  The body of the \<open>readdir\<close> loop of \<open>setup_block\<close>, over the entries still to come.
  \<open>snprintf\<close> into \<open>char[n]\<close> keeps at most \<open>n - 1\<close> characters. The result says whether the
  loop left through \<open>break\<close>, with the struct as the last \<open>parse_device\<close> left it.
\<close>

definition uevent_path :: "string \<Rightarrow> path" where
  "uevent_path d_name = take 127 (''/sys/dev/block/'' @ d_name @ ''/uevent'')"

fun block_scan :: "env \<Rightarrow> fsys \<Rightarrow> string \<Rightarrow> device \<Rightarrow> string list \<Rightarrow> fault + (bool \<times> device)" where
  "block_scan e fs pn dev [] = Inr (False, dev)"
| "block_scan e fs pn dev (d_name # rest) =
     (if d_name = ''.'' \<or> d_name = ''..'' then block_scan e fs pn dev rest
      else
        (case read_buf 1024 (file_content fs (uevent_path d_name)) of
           Inl x \<Rightarrow> Inl x
         | Inr buffer \<Rightarrow>
             (case parse_device e dev buffer of
                Inl x \<Rightarrow> Inl x
              | Inr dev' \<Rightarrow>
                  if partname dev' = pn
                  then Inr (True, dev'\<lparr>path := take 63 (''/dev/block/'' @ devname dev')\<rparr>)
                  else block_scan e fs pn dev' rest)))"

text \<open>
  \<open>setup_block\<close> returns its status (0 found, 1 not), the struct as it leaves it, and
  the file system. The return values of \<open>mkdir\<close> and \<open>mknod\<close> are not looked at.
\<close>

definition setup_block :: "env \<Rightarrow> device \<Rightarrow> string \<Rightarrow> fsys \<Rightarrow> fault + (int \<times> device \<times> fsys)" where
  "setup_block e dev pn fs =
     (case readdir fs ''/sys/dev/block'' of
        None \<Rightarrow> Inr (1, dev, fs)
      | Some entries \<Rightarrow>
          (case block_scan e fs pn dev entries of
             Inl x \<Rightarrow> Inl x
           | Inr (found, dev') \<Rightarrow>
               if \<not> found then Inr (1, dev', fs)
               else
                 (let fs1 = mkdir fs ''/dev'' mode_0755;
                      fs2 = mkdir fs1 ''/dev/block'' mode_0755;
                      fs3 = mknod fs2 (path dev')
                              (BlockDev mode_0600 (makedev e (major dev') (minor dev')))
                  in Inr (0, dev', fs3))))"

text \<open>
  The fields of an entry, read off its text, for the statements about \<open>setup_block\<close>.
  The lines of a text are its non-empty pieces between newlines. A line \<open>KEY=...\<close> gives
  the field \<open>KEY\<close> the word that \<open>%s\<close> takes behind the \<open>=\<close> (white space skipped, then up
  to the next white space), or the number that \<open>%ld\<close> stores; of several such lines the
  last one counts. \<open>last_word\<close> and \<open>last_long\<close> give that value for a list of lines,
  \<open>None\<close> when no line assigns one.
\<close>

fun last_some :: "('a \<Rightarrow> 'b option) \<Rightarrow> 'a list \<Rightarrow> 'b option" where
  "last_some f [] = None"
| "last_some f (x # xs) = (case last_some f xs of None \<Rightarrow> f x | Some y \<Rightarrow> Some y)"

definition uevent_lines :: "string \<Rightarrow> string list" where
  "uevent_lines text = strtok_all (CHR 0x0A) text"

definition last_word :: "string \<Rightarrow> string list \<Rightarrow> string option" where
  "last_word key ls = last_some (sscanf_s (key @ ''='')) ls"

definition last_long :: "env \<Rightarrow> string \<Rightarrow> string list \<Rightarrow> int option" where
  "last_long e key ls = last_some (\<lambda>l. map_option (to_long e) (sscanf_ld (key @ ''='') l)) ls"

text \<open>
  The partition name of a text is the word of its \<open>PARTNAME\<close> field, and empty when the
  text has none.
\<close>

definition partname_word :: "string \<Rightarrow> string" where
  "partname_word text = (case last_word ''PARTNAME'' (uevent_lines text) of None \<Rightarrow> [] | Some w \<Rightarrow> w)"

text \<open>
  The text of an entry is what its \<open>uevent\<close> file holds, as a C string. An entry can be
  read when the file exists and leaves room for the NUL in the 1024 bytes of the buffer,
  and when the words of its \<open>DEVNAME\<close> and \<open>PARTNAME\<close> lines leave room for the NUL in
  the 32 bytes of their buffers.
\<close>

definition entry_text :: "fsys \<Rightarrow> string \<Rightarrow> string" where
  "entry_text fs d_name =
     (case file_content fs (uevent_path d_name) of None \<Rightarrow> [] | Some data \<Rightarrow> cstr data)"

definition line_fits :: "string \<Rightarrow> bool" where
  "line_fits l =
     ((case sscanf_s ''DEVNAME='' l of None \<Rightarrow> True | Some w \<Rightarrow> length w < 32)
      \<and> (case sscanf_s ''PARTNAME='' l of None \<Rightarrow> True | Some w \<Rightarrow> length w < 32))"

definition entry_ok :: "fsys \<Rightarrow> string \<Rightarrow> bool" where
  "entry_ok fs d_name =
     (case file_content fs (uevent_path d_name) of
        None \<Rightarrow> False
      | Some data \<Rightarrow> length data < 1024 \<and> list_all line_fits (uevent_lines (cstr data)))"

text \<open>The lines of the entries of a directory listing, in the order of the scan.\<close>

definition scanned_lines :: "fsys \<Rightarrow> string list \<Rightarrow> string list" where
  "scanned_lines fs d_names =
     concat (map (\<lambda>x. uevent_lines (entry_text fs x))
                 (filter (\<lambda>x. x \<noteq> ''.'' \<and> x \<noteq> ''..'') d_names))"

section \<open>patch_ramdisk\<close>

text \<open>
  The scan of the mapped \<open>/init\<close> compares \<open>sizeof(SPLIT_PLAT_CIL) - 1\<close> bytes, the string
  without its NUL, at every offset below the size of the image, and stores \<open>xxx\<close> at
  \<open>addr + i + sizeof(SPLIT_PLAT_CIL) - 4\<close>. \<open>patch_init\<close> works on the memory of the mapping
  and returns it. Then \<open>/init.rc\<close> is read, rewritten by \<open>patch_init_rc\<close> and written back.
\<close>

definition patch_init :: "string \<Rightarrow> string \<Rightarrow> nat \<Rightarrow> fault + string" where
  "patch_init pat mem sz =
     (case find_first mem sz pat of
        Inl x \<Rightarrow> Inl x
      | Inr None \<Rightarrow> Inr mem
      | Inr (Some i) \<Rightarrow> memcpy_at mem (int i + int (length pat + 1) - 4) ''xxx'' 3)"

definition patch_ramdisk :: "env \<Rightarrow> world \<Rightarrow> fault + world" where
  "patch_ramdisk e w =
     (case mmap_file (filesys w) ''/init'' of
        Inl x \<Rightarrow> Inl x
      | Inr img \<Rightarrow>
          (case patch_init (SPLIT_PLAT_CIL e) (mapped e img) (length img) of
             Inl x \<Rightarrow> Inl x
           | Inr mem' \<Rightarrow>
               (let fs1 = munmap_rw (filesys w) ''/init'' (unmapped (length img) mem')
                in case mmap_file fs1 ''/init.rc'' of
                     Inl x \<Rightarrow> Inl x
                   | Inr rc \<Rightarrow>
                       (let (fd, fs2) = creat fs1 ''/init.rc'' mode_0750;
                            fs3 = write_fd fs2 fd (patch_init_rc e rc)
                        in Inr (w\<lparr>filesys := fs3\<rparr>)))))"

section \<open>Policy resolution\<close>

text \<open>
  \<open>strend(s1, s2) == 0\<close>: \<open>s2\<close> is the end of \<open>s1\<close>. For a name shorter than the suffix the
  comparison starts in front of the name, at bytes of the directory record that are no
  characters of the suffix, and fails.
\<close>

definition strend_eq :: "string \<Rightarrow> string \<Rightarrow> bool" where
  "strend_eq s1 s2 = (length s2 \<le> length s1 \<and> drop (length s1 - length s2) s1 = s2)"

text \<open>\<open>opendir\<close> takes the directory macros as they are, with their final slash.\<close>

definition dir_path :: "path \<Rightarrow> path" where
  "dir_path p = (if p \<noteq> ''/'' \<and> p \<noteq> [] \<and> last p = CHR ''/'' then butlast p else p)"

text \<open>
  The idiom \<open>buf[read(fd, buf, n) - 1] = '\0'\<close> on a \<open>char buf[n]\<close>: the last byte read
  is dropped. A file that cannot be opened, or an empty one, puts the store in front of
  the buffer.
\<close>

definition read_chop :: "nat \<Rightarrow> string option \<Rightarrow> fault + string" where
  "read_chop n content =
     (case content of
        None \<Rightarrow> Inl OutOfBounds
      | Some data \<Rightarrow>
          if min n (length data) = 0 then Inl OutOfBounds
          else Inr (cstr (take (min n (length data) - 1) data)))"

fun first_sha256 :: "string list \<Rightarrow> string option" where
  "first_sha256 [] = None"
| "first_sha256 (d_name # rest) =
     (if d_name = ''.'' \<or> d_name = ''..'' then first_sha256 rest
      else if strend_eq d_name ''.sha256'' then Some d_name
      else first_sha256 rest)"

text \<open>
  One of the two loops of \<open>verify_precompiled\<close>: the signature read from the first
  \<open>.sha256\<close> file of the directory, or the array's initial content when there is none.
\<close>

definition read_sha :: "fsys \<Rightarrow> path \<Rightarrow> string \<Rightarrow> fault + string" where
  "read_sha fs dir initial =
     (case readdir fs (dir_path dir) of
        None \<Rightarrow> Inl NullDir
      | Some entries \<Rightarrow>
          (case first_sha256 entries of
             None \<Rightarrow> Inr initial
           | Some d_name \<Rightarrow> read_chop 70 (file_content fs (dir_path dir @ ''/'' @ d_name))))"

definition verify_precompiled :: "env \<Rightarrow> fsys \<Rightarrow> fault + bool" where
  "verify_precompiled e fs =
     (case read_sha fs (NONPLAT_POLICY_DIR e) (cstr (CHR 0x01 # take 69 (ven_sha_stack e))) of
        Inl x \<Rightarrow> Inl x
      | Inr ven_sha \<Rightarrow>
          (case read_sha fs (PLAT_POLICY_DIR e) [] of
             Inl x \<Rightarrow> Inl x
           | Inr sys_sha \<Rightarrow> Inr (sys_sha = ven_sha)))"



fun cil_add_dir :: "env \<Rightarrow> string list \<Rightarrow> world \<Rightarrow> fault + world" where
  "cil_add_dir e [] w = Inr w"
| "cil_add_dir e (d_name # rest) w =
     (if d_name = ''.'' \<or> d_name = ''..'' then cil_add_dir e rest w
      else if strend_eq d_name ''.cil'' then
        (let p = take 127 (NONPLAT_POLICY_DIR e @ d_name)
         in case mmap_file (filesys w) p of
              Inl x \<Rightarrow> Inl x
            | Inr addr \<Rightarrow> cil_add_dir e rest (call e (CilAddFile p) w))
      else cil_add_dir e rest w)"

definition compile_cil :: "env \<Rightarrow> world \<Rightarrow> fault + world" where
  "compile_cil e w =
     (let w1 = call e CilDbInit w
      in case mmap_file (filesys w1) (SPLIT_PLAT_CIL e) of
           Inl x \<Rightarrow> Inl x
         | Inr addr \<Rightarrow>
             (let w2 = call e (CilAddFile (SPLIT_PLAT_CIL e)) w1
              in case read_chop 10 (file_content (filesys w2) (SPLIT_NONPLAT_VER e)) of
                   Inl x \<Rightarrow> Inl x
                 | Inr plat \<Rightarrow>
                     (let p = take 127 (SPLIT_PLAT_MAPPING e plat)
                      in case mmap_file (filesys w2) p of
                           Inl x \<Rightarrow> Inl x
                         | Inr addr2 \<Rightarrow>
                             (let w3 = call e (CilAddFile p) w2
                              in case readdir (filesys w3) (dir_path (NONPLAT_POLICY_DIR e)) of
                                   None \<Rightarrow> Inl NullDir
                                 | Some entries \<Rightarrow>
                                     (case cil_add_dir e entries w3 of
                                        Inl x \<Rightarrow> Inl x
                                      | Inr w4 \<Rightarrow>
                                          Inr (call e CilDbDestroy
                                                (call e CilBuildPolicydb
                                                  (call e CilCompile w4))))))))"

text \<open>
  Lines 292 to 301 of \<open>patch_sepolicy\<close>, which every branch but the last reaches: the
  rules, the dump to \<open>/sepolicy\<close>, the replacement of \<open>/sepolicy_debug\<close>, and status 0.
\<close>

definition sepolicy_commit :: "env \<Rightarrow> world \<Rightarrow> int \<times> world" where
  "sepolicy_commit e w =
     (let w1 = call e (DumpPolicydb ''/sepolicy'') (call e SepolMagiskRules w)
      in if access (filesys w1) ''/sepolicy_debug''
         then (0, w1\<lparr>filesys := link (unlink (filesys w1) ''/sepolicy_debug'') ''/sepolicy'' ''/sepolicy_debug''\<rparr>)
         else (0, w1))"

text \<open>
  The \<open>if\<close> chain of \<open>patch_sepolicy\<close>. \<open>&&\<close> evaluates \<open>verify_precompiled\<close> only when
  the precompiled policy is readable.
\<close>

definition patch_sepolicy :: "env \<Rightarrow> world \<Rightarrow> fault + (int \<times> world)" where
  "patch_sepolicy e w =
     (if access (filesys w) ''/sepolicy'' then
        Inr (sepolicy_commit e (call e (LoadPolicydb ''/sepolicy'') w))
      else
        (case (if access (filesys w) (SPLIT_PRECOMPILE e) then verify_precompiled e (filesys w)
               else Inr False) of
           Inl x \<Rightarrow> Inl x
         | Inr True \<Rightarrow> Inr (sepolicy_commit e (call e (LoadPolicydb (SPLIT_PRECOMPILE e)) w))
         | Inr False \<Rightarrow>
             if access (filesys w) (SPLIT_PLAT_CIL e) then
               (case compile_cil e w of
                  Inl x \<Rightarrow> Inl x
                | Inr w' \<Rightarrow> Inr (sepolicy_commit e w'))
             else Inr (1, w)))"

section \<open>Payload extraction\<close>

definition BUFSIZE :: nat where
  "BUFSIZE = 2 ^ 20"

text \<open>
  The \<open>do ... while\<close> loop of \<open>unxz\<close> over the results of the calls of \<open>lzma_code\<close> still to
  come: each call's output is written, and the loop goes on while the output buffer was
  filled (\<open>avail_out == 0\<close>) and the code is \<open>LZMA_OK\<close>. A decoder with no result left
  reports an error and no output.
\<close>

fun unxz_loop :: "(string \<times> lzma_ret) list \<Rightarrow> nat option \<Rightarrow> fsys \<Rightarrow> lzma_ret \<times> fsys" where
  "unxz_loop [] fd fs = (LZMA_FAIL, fs)"
| "unxz_loop ((out, ret) # rest) fd fs =
     (let fs' = write_fd fs fd (take BUFSIZE out)
      in if BUFSIZE \<le> length out \<and> ret = LZMA_OK then unxz_loop rest fd fs'
         else (ret, fs'))"

definition unxz :: "env \<Rightarrow> string \<Rightarrow> nat option \<Rightarrow> fsys \<Rightarrow> int \<times> fsys" where
  "unxz e buf fd fs =
     (if lzma_auto_decoder e \<noteq> LZMA_OK then (1, fs)
      else
        (let (ret, fs') = unxz_loop (lzma_code e buf) fd fs
         in if ret \<noteq> LZMA_OK \<and> ret \<noteq> LZMA_STREAM_END then (1, fs') else (0, fs')))"

definition dump_magisk :: "env \<Rightarrow> path \<Rightarrow> nat \<Rightarrow> fsys \<Rightarrow> int \<times> fsys" where
  "dump_magisk e p mode fs0 =
     (let fs1 = unlink fs0 p;
          (fd, fs2) = creat fs1 p mode
      in unxz e (magisk_dump e) fd fs2)"

definition dump_magiskrc :: "env \<Rightarrow> path \<Rightarrow> nat \<Rightarrow> fsys \<Rightarrow> int \<times> fsys" where
  "dump_magiskrc e p mode fs0 =
     (let (fd, fs1) = creat fs0 p mode
      in (0, write_fd fs1 fd (magiskrc e)))"

text \<open>
  \<open>patch_socket_name\<close>: the scan runs only while \<open>SOCKET_OFF\<close> is negative and compares
  \<open>sizeof(SOCKET_NAME)\<close> bytes, the placeholder with its NUL, at every offset below the
  size of the image; as many bytes of \<open>RAND_SOCKET_NAME\<close> are then copied to
  \<open>buf + SOCKET_OFF\<close>.
\<close>

definition patch_socket_name :: "env \<Rightarrow> path \<Rightarrow> world \<Rightarrow> fault + world" where
  "patch_socket_name e p w =
     (case mmap_file (filesys w) p of
        Inl x \<Rightarrow> Inl x
      | Inr img \<Rightarrow>
          (let n = length (SOCKET_NAME e) + 1;
               buf = mapped e img
           in case (if SOCKET_OFF w < 0
                    then (case find_first buf (length img) (SOCKET_NAME e @ [NUL]) of
                            Inl x \<Rightarrow> Inl x
                          | Inr None \<Rightarrow> Inr (SOCKET_OFF w)
                          | Inr (Some i) \<Rightarrow> Inr (int i))
                    else Inr (SOCKET_OFF w)) of
                Inl x \<Rightarrow> Inl x
              | Inr off \<Rightarrow>
                  (let RAND_SOCKET_NAME = gen_rand_str e (rand_calls w) n
                   in case memcpy_at buf off RAND_SOCKET_NAME n of
                        Inl x \<Rightarrow> Inl x
                      | Inr buf' \<Rightarrow>
                          Inr (w\<lparr>filesys := munmap_rw (filesys w) p (unmapped (length img) buf'),
                                 SOCKET_OFF := off, rand_calls := Suc (rand_calls w)\<rparr>))))"

section \<open>main\<close>

text \<open>
  Lines 79 to 85 of \<open>parse_cmdline\<close>: \<open>/proc\<close> is made and mounted, \<open>/proc/cmdline\<close> is
  read, \<open>/proc\<close> is unmounted. The text goes to \<open>parse_cmdline\<close> above.
\<close>

definition read_cmdline :: "env \<Rightarrow> world \<Rightarrow> string option \<times> world" where
  "read_cmdline e w =
     (let w1 = call e (Mount ''proc'' ''/proc'' ''proc'' MS_NONE)
                 (w\<lparr>filesys := mkdir (filesys w) ''/proc'' mode_0555\<rparr>)
      in (file_content (filesys w1) ''/proc/cmdline'', call e (Umount ''/proc'') w1))"

text \<open>
  The body of \<open>main\<close> follows the banners of the source. \<open>main_initialize\<close> is the block
  under "Initialize" (lines 401 to 428): the root is populated in one of three ways.
\<close>

definition main_initialize :: "env \<Rightarrow> cmdline \<Rightarrow> world \<Rightarrow> fault + world" where
  "main_initialize e cmd w =
     (if skip_initramfs cmd \<noteq> 0 then
        (let w1 = w\<lparr>excl_list := [''overlay'', ''.backup'', ''init.bak'']\<rparr>
         in Inr (call e (FrmRf ''/'' (excl_list w1)) w1))
      else if access (filesys w) ''/ramdisk.cpio.xz'' then
        (case mmap_file (filesys w) ''/ramdisk.cpio.xz'' of
           Inl x \<Rightarrow> Inl x
         | Inr addr \<Rightarrow>
             (let (fd, fs1) = creat (filesys w) ''/ramdisk.cpio'' mode_0;
                  (r, fs2) = unxz e addr fd fs1;
                  w1 = call e (ParseCpio ''/ramdisk.cpio'') (w\<lparr>filesys := fs2\<rparr>);
                  w2 = w1\<lparr>excl_list := [''overlay'', ''.backup'']\<rparr>;
                  w3 = call e (FrmRf ''/'' (excl_list w2)) w2
              in Inr (call e CpioExtractAll w3)))
      else
        Inr (w\<lparr>filesys := link (unlink (filesys w) ''/init'') ''/.backup/init'' ''/init''\<rparr>))"

text \<open>
  "Early Mount" (lines 430 to 466). The status of the first \<open>setup_block\<close> is dropped and
  \<open>dev.path\<close> is mounted as it stands; the struct comes in uninitialised.
\<close>

definition main_early_mount :: "env \<Rightarrow> cmdline \<Rightarrow> device \<Rightarrow> world \<Rightarrow> fault + world" where
  "main_early_mount e cmd dev0 w =
     (if skip_initramfs cmd \<noteq> 0 \<or> \<not> access (filesys w) ''/sepolicy'' then
        (let w1 = call e (Mount ''sysfs'' ''/sys'' ''sysfs'' MS_NONE)
                    (w\<lparr>filesys := mkdir (filesys w) ''/sys'' mode_0755\<rparr>)
         in case setup_block e dev0 (take 31 (''SYSTEM'' @ cstr (slot cmd))) (filesys w1) of
              Inl x \<Rightarrow> Inl x
            | Inr (r1, dev1, fs1) \<Rightarrow>
                (let w2 = w1\<lparr>filesys := fs1\<rparr>;
                     w3 = (if skip_initramfs cmd \<noteq> 0 then
                             (let a = call e (Mount (path dev1) ''/system_root'' ''ext4'' MS_RDONLY)
                                        (w2\<lparr>filesys := mkdir (filesys w2) ''/system_root'' mode_0755\<rparr>);
                                  b = a\<lparr>excl_list := [''system'']\<rparr>;
                                  c = call e (CloneDir ''/system_root'' ''/'' (excl_list b)) b
                              in call e (Mount ''/system_root/system'' ''/system'' [] MS_BIND)
                                   (c\<lparr>filesys := mkdir (filesys c) ''/system'' mode_0755\<rparr>))
                           else call e (Mount (path dev1) ''/system'' ''ext4'' MS_RDONLY) w2)
                 in case setup_block e dev1 (take 31 (''VENDOR'' @ cstr (slot cmd))) (filesys w3) of
                      Inl x \<Rightarrow> Inl x
                    | Inr (r2, dev2, fs2) \<Rightarrow>
                        if r2 = 0
                        then Inr (call e (Mount (path dev2) ''/vendor'' ''ext4'' MS_RDONLY)
                                    (w3\<lparr>filesys := fs2\<rparr>))
                        else Inr (w3\<lparr>filesys := fs2\<rparr>)))
      else Inr w)"

text \<open>
  "Dump binaries" (lines 487 to 491): both payloads, the socket name, and the rename
  of the backup of \<open>/init\<close> to the applet's place. No status is looked at.
\<close>

definition dump_binaries :: "env \<Rightarrow> world \<Rightarrow> fault + world" where
  "dump_binaries e w =
     (let (r1, fs1) = dump_magiskrc e ''/init.magisk.rc'' mode_0750 (filesys w);
          (r2, fs2) = dump_magisk e ''/sbin/magisk'' mode_0755 fs1
      in case patch_socket_name e ''/sbin/magisk'' (w\<lparr>filesys := fs2\<rparr>) of
           Inl x \<Rightarrow> Inl x
         | Inr w1 \<Rightarrow> Inr (w1\<lparr>filesys := rename (filesys w1) ''/init.bak'' ''/sbin/magiskinit''\<rparr>))"

text \<open>
  "Handle ramdisk overlays" (lines 476 to 482): when \<open>/overlay\<close> can be opened, its
  entries are moved into the root and the directory is removed.
\<close>

definition merge_overlay :: "env \<Rightarrow> world \<Rightarrow> world" where
  "merge_overlay e w =
     (if access (filesys w) ''/overlay''
      then (let a = call e (MvDir ''/overlay'' ''/'') w
            in a\<lparr>filesys := rmdir (filesys a) ''/overlay''\<rparr>)
      else w)"

text \<open>
  "Patch rootfs" (lines 468 to 492). \<open>patch_sepolicy()\<close> is an expression statement: its
  value is dropped, and the next statement runs on the state it leaves.
\<close>

definition main_patch_rootfs :: "env \<Rightarrow> world \<Rightarrow> fault + world" where
  "main_patch_rootfs e w =
     (if \<not> access (filesys w) ''/etc/recovery.fstab'' then
        (case patch_ramdisk e (merge_overlay e w) of
           Inl x \<Rightarrow> Inl x
         | Inr w2 \<Rightarrow>
             (case patch_sepolicy e w2 of
                Inl x \<Rightarrow> Inl x
              | Inr (status, w3) \<Rightarrow> dump_binaries e w3))
      else Inr w)"

text \<open>"Clean up" (lines 494 to 501), ending in \<open>execv("/init", argv)\<close>.\<close>

definition main_cleanup :: "env \<Rightarrow> cmdline \<Rightarrow> string list \<Rightarrow> world \<Rightarrow> world" where
  "main_cleanup e cmd argv w =
     (let w1 = (if skip_initramfs cmd = 0 then call e (Umount ''/system'') w else w)
      in call e (Execv ''/init'' argv) (call e (Umount ''/vendor'') w1))"

text \<open>
  The boot sequence, lines 381 to 501: what \<open>main\<close> does when the invoked name is no
  applet and the arguments do not ask for an extraction. \<open>/null\<close> is made, opened and
  unlinked, and \<open>/init\<close> gets the backup link \<open>/init.bak\<close>.
\<close>

definition boot :: "env \<Rightarrow> string list \<Rightarrow> device \<Rightarrow> world \<Rightarrow> fault + world" where
  "boot e argv dev0 w =
     (let fs1 = unlink (mknod (filesys w) ''/null'' (CharDev mode_0666 (makedev e 1 3))) ''/null'';
          fs2 = link fs1 ''/init'' ''/init.bak'';
          (content, w1) = read_cmdline e (w\<lparr>filesys := fs2\<rparr>)
      in case parse_cmdline content of
           Inl x \<Rightarrow> Inl x
         | Inr cmd \<Rightarrow>
             (case main_initialize e cmd w1 of
                Inl x \<Rightarrow> Inl x
              | Inr w2 \<Rightarrow>
                  (case main_early_mount e cmd dev0 w2 of
                     Inl x \<Rightarrow> Inl x
                   | Inr w3 \<Rightarrow>
                       (case main_patch_rootfs e w3 of
                          Inl x \<Rightarrow> Inl x
                        | Inr w4 \<Rightarrow> Inr (main_cleanup e cmd argv w4)))))"

section \<open>A concrete system\<close>

text \<open>
  Values for the parameters, used where a statement is evaluated on a concrete input.
  The path macros are those of the project's headers for split-policy devices; the
  external calls leave the file system alone; the decoder delivers a small image that
  contains the socket-name placeholder, in one call; the generator fills its buffer with
  one letter per call and a final NUL. \<open>long\<close> has 64 bits, \<open>makedev\<close> is the macro of the
  Linux headers, pages have 4096 bytes and nothing is mapped behind a mapping's last
  page.
\<close>

definition example_env :: env where
  "example_env =
     \<lparr>SPLIT_PLAT_CIL = ''/system/etc/selinux/plat_sepolicy.cil'',
      SPLIT_PLAT_MAPPING = (\<lambda>v. ''/system/etc/selinux/mapping/'' @ v @ ''.cil''),
      SPLIT_PRECOMPILE = ''/vendor/etc/selinux/precompiled_sepolicy'',
      SPLIT_NONPLAT_VER = ''/vendor/etc/selinux/plat_sepolicy_vers.txt'',
      PLAT_POLICY_DIR = ''/system/etc/selinux/'',
      NONPLAT_POLICY_DIR = ''/vendor/etc/selinux/'',
      SOCKET_NAME = ''d30138f2'',
      magisk_dump = ''7zXZ'',
      magiskrc = ''service magisk_daemon /sbin/magisk'',
      effect = (\<lambda>ev fs. fs),
      patch_init_rc = (\<lambda>rc. rc @ ''import /init.magisk.rc''),
      lzma_auto_decoder = LZMA_OK,
      lzma_code = (\<lambda>buf. [(''ELF:d30138f2'' @ [NUL] @ '':end'', LZMA_STREAM_END)]),
      gen_rand_str = (\<lambda>k n. replicate (n - 1) (if even k then CHR ''a'' else CHR ''b'') @ [NUL]),
      ven_sha_stack = [],
      LONG_MIN = - (2 ^ 63),
      LONG_MAX = 2 ^ 63 - 1,
      makedev = (\<lambda>ma mi. ma mod 2 ^ 12 * 2 ^ 8 + (ma div 2 ^ 12) mod 2 ^ 20 * 2 ^ 44
                           + mi mod 2 ^ 8 + (mi div 2 ^ 8) mod 2 ^ 24 * 2 ^ 20),
      behind = (\<lambda>img. replicate ((4096 - length img mod 4096) mod 4096) NUL)\<rparr>"

definition world_of :: "fsys \<Rightarrow> world" where
  "world_of f = \<lparr>filesys = f, trace = [], SOCKET_OFF = - 1, excl_list = [], rand_calls = 0\<rparr>"

text \<open>A root with an \<open>/init\<close> that holds the platform policy path, and an \<open>/init.rc\<close>.\<close>

definition init_image :: string where
  "init_image = ''AB/system/etc/selinux/plat_sepolicy.cil'' @ [NUL] @ ''CDEF''"



text \<open>A root with the extracted companion binary, the placeholder at offset 4.\<close>

definition fs_magisk :: fsys where
  "fs_magisk =
     \<lparr>names = [(''/'', 0), (''/sbin'', 1), (''/sbin/magisk'', 2)],
      inodes = [0 \<mapsto> Directory mode_0755, 1 \<mapsto> Directory mode_0755,
                2 \<mapsto> Regular mode_0755 (''ELF:d30138f2'' @ [NUL] @ '':end'')],
      next_ino = 3\<rparr>"




text \<open>
  Device metadata: a disk and two partitions as the kernel describes them, and a second
  corpus whose partition entries leave fields out: the first has no \<open>MINOR\<close> line, the
  second names the partition and nothing else.
\<close>

definition fs_block :: fsys where
  "fs_block =
     \<lparr>names = [(''/'', 0), (''/sys'', 1), (''/sys/dev'', 2), (''/sys/dev/block'', 3),
               (''/sys/dev/block/8:0'', 4), (''/sys/dev/block/8:0/uevent'', 5),
               (''/sys/dev/block/8:1'', 6), (''/sys/dev/block/8:1/uevent'', 7),
               (''/sys/dev/block/8:2'', 8), (''/sys/dev/block/8:2/uevent'', 9)],
      inodes = [0 \<mapsto> Directory mode_0755, 1 \<mapsto> Directory mode_0755,
                2 \<mapsto> Directory mode_0755, 3 \<mapsto> Directory mode_0755,
                4 \<mapsto> Directory mode_0755,
                5 \<mapsto> Regular mode_0600 ''MAJOR=8\<newline>MINOR=0\<newline>DEVNAME=sda\<newline>DEVTYPE=disk\<newline>'',
                6 \<mapsto> Directory mode_0755,
                7 \<mapsto> Regular mode_0600
                     ''MAJOR=8\<newline>MINOR=1\<newline>DEVNAME=sda1\<newline>PARTN=1\<newline>PARTNAME=SYSTEM_a\<newline>'',
                8 \<mapsto> Directory mode_0755,
                9 \<mapsto> Regular mode_0600
                     ''MAJOR=8\<newline>MINOR=2\<newline>DEVNAME=sda2\<newline>PARTN=2\<newline>PARTNAME=VENDOR_a\<newline>''],
      next_ino = 10\<rparr>"

definition fs_block_stale :: fsys where
  "fs_block_stale =
     \<lparr>names = [(''/'', 0), (''/sys'', 1), (''/sys/dev'', 2), (''/sys/dev/block'', 3),
               (''/sys/dev/block/8:16'', 4), (''/sys/dev/block/8:16/uevent'', 5),
               (''/sys/dev/block/259:1'', 6), (''/sys/dev/block/259:1/uevent'', 7),
               (''/sys/dev/block/259:2'', 8), (''/sys/dev/block/259:2/uevent'', 9)],
      inodes = [0 \<mapsto> Directory mode_0755, 1 \<mapsto> Directory mode_0755,
                2 \<mapsto> Directory mode_0755, 3 \<mapsto> Directory mode_0755,
                4 \<mapsto> Directory mode_0755,
                5 \<mapsto> Regular mode_0600 ''MAJOR=8\<newline>MINOR=16\<newline>DEVNAME=sdb\<newline>DEVTYPE=disk\<newline>'',
                6 \<mapsto> Directory mode_0755,
                7 \<mapsto> Regular mode_0600 ''MAJOR=259\<newline>DEVNAME=sda1\<newline>PARTNAME=SYSTEM_a\<newline>'',
                8 \<mapsto> Directory mode_0755,
                9 \<mapsto> Regular mode_0600 ''PARTNAME=VENDOR_a\<newline>''],
      next_ino = 10\<rparr>"

text \<open>
  A corpus whose first partition entry carries a second word in its \<open>PARTNAME\<close> field.
\<close>

definition fs_block_words :: fsys where
  "fs_block_words =
     \<lparr>names = [(''/'', 0), (''/sys'', 1), (''/sys/dev'', 2), (''/sys/dev/block'', 3),
               (''/sys/dev/block/8:1'', 4), (''/sys/dev/block/8:1/uevent'', 5),
               (''/sys/dev/block/8:2'', 6), (''/sys/dev/block/8:2/uevent'', 7)],
      inodes = [0 \<mapsto> Directory mode_0755, 1 \<mapsto> Directory mode_0755,
                2 \<mapsto> Directory mode_0755, 3 \<mapsto> Directory mode_0755,
                4 \<mapsto> Directory mode_0755,
                5 \<mapsto> Regular mode_0600
                     ''MAJOR=8\<newline>MINOR=1\<newline>DEVNAME=sda1\<newline>PARTNAME=SYSTEM_a backup\<newline>'',
                6 \<mapsto> Directory mode_0755,
                7 \<mapsto> Regular mode_0600
                     ''MAJOR=8\<newline>MINOR=2\<newline>DEVNAME=sda2\<newline>PARTNAME=SYSTEM_a\<newline>''],
      next_ino = 8\<rparr>"

definition device_zero :: device where
  "device_zero = \<lparr>major = 0, minor = 0, devname = [], partname = [], path = []\<rparr>"


text \<open>Two roots for the populate phase: one with the compressed archive, one with the backup of the original init.\<close>

definition fs_ramdisk :: fsys where
  "fs_ramdisk =
     \<lparr>names = [(''/'', 0), (''/init'', 1), (''/ramdisk.cpio.xz'', 2)],
      inodes = [0 \<mapsto> Directory mode_0755, 1 \<mapsto> Regular mode_0750 ''magiskinit'',
                2 \<mapsto> Regular mode_0600 ''7zXZ''],
      next_ino = 3\<rparr>"

definition fs_backup :: fsys where
  "fs_backup =
     \<lparr>names = [(''/'', 0), (''/init'', 1), (''/.backup'', 2), (''/.backup/init'', 3)],
      inodes = [0 \<mapsto> Directory mode_0755, 1 \<mapsto> Regular mode_0750 ''magiskinit'',
                2 \<mapsto> Directory mode_0, 3 \<mapsto> Regular mode_0750 init_image],
      next_ino = 4\<rparr>"




text \<open>
  A root as the boot sequence finds it on a device without a policy source: the patched
  ramdisk's \<open>/init\<close> (this program), the backup of the original init, \<open>/init.rc\<close>, \<open>/sbin\<close>,
  and the kernel command line.
\<close>

definition fs_boot :: fsys where
  "fs_boot =
     \<lparr>names = [(''/'', 0), (''/init'', 1), (''/init.rc'', 2), (''/.backup'', 3),
               (''/.backup/init'', 4), (''/sbin'', 5), (''/proc'', 6), (''/proc/cmdline'', 7)],
      inodes = [0 \<mapsto> Directory mode_0755, 1 \<mapsto> Regular mode_0750 ''magiskinit'',
                2 \<mapsto> Regular mode_0750 ''on boot'', 3 \<mapsto> Directory mode_0,
                4 \<mapsto> Regular mode_0750 init_image, 5 \<mapsto> Directory mode_0755,
                6 \<mapsto> Directory mode_0555, 7 \<mapsto> Regular mode_0600 ''androidboot.slot=a''],
      next_ino = 8\<rparr>"

section \<open>Evaluation on concrete inputs\<close>

lemmas fs_eval = readdir_def is_dir_def lookup_def ino_of_def dirname_def basename_def
  file_content_def can_create_def new_node_def mkdir_def mknod_def access_def unlink_def
  link_def rename_def rmdir_def creat_def write_fd_def mmap_file_def munmap_rw_def

lemmas mem_eval = find_first_def memcmp_at_def memcpy_at_def mapped_def unmapped_def

lemmas dev_eval = uevent_path_def read_buf_def parse_device_def device_line_def
  strtok_all_def strncmp_eq_def sscanf_ld_def sscanf_s_def scan_s_def scan_ld_def
  isspace_def isdigit_def dec_val_def cstr_def NUL_def to_long_def

lemmas policy_eval = patch_sepolicy_def sepolicy_commit_def verify_precompiled_def read_sha_def
  read_chop_def strend_eq_def dir_path_def compile_cil_def call_def cstr_def NUL_def Let_def

lemmas boot_eval = boot_def read_cmdline_def main_initialize_def main_early_mount_def
  main_patch_rootfs_def merge_overlay_def main_cleanup_def dump_binaries_def dump_magisk_def
  dump_magiskrc_def unxz_def patch_socket_name_def patch_ramdisk_def patch_init_def
  setup_block_def BUFSIZE_def

lemma example_env_fields:
  "SPLIT_PLAT_CIL example_env = ''/system/etc/selinux/plat_sepolicy.cil''"
  "SPLIT_PRECOMPILE example_env = ''/vendor/etc/selinux/precompiled_sepolicy''"
  "SPLIT_NONPLAT_VER example_env = ''/vendor/etc/selinux/plat_sepolicy_vers.txt''"
  "PLAT_POLICY_DIR example_env = ''/system/etc/selinux/''"
  "NONPLAT_POLICY_DIR example_env = ''/vendor/etc/selinux/''"
  "SOCKET_NAME example_env = ''d30138f2''"
  "gen_rand_str example_env k n = replicate (n - 1) (if even k then CHR ''a'' else CHR ''b'') @ [NUL]"
  "behind example_env img = replicate ((4096 - length img mod 4096) mod 4096) NUL"
  "makedev example_env ma mi
     = ma mod 2 ^ 12 * 2 ^ 8 + (ma div 2 ^ 12) mod 2 ^ 20 * 2 ^ 44
       + mi mod 2 ^ 8 + (mi div 2 ^ 8) mod 2 ^ 24 * 2 ^ 20"
  "LONG_MIN example_env = - (2 ^ 63)"
  "LONG_MAX example_env = 2 ^ 63 - 1"
  by (simp_all add: example_env_def)

section \<open>Properties of parse_cmdline\<close>

lemmas cmdline_eval = parse_cmdline_def read_buf_def cstr_def NUL_def strtok_all_def
  cmdline_token_def strncmp_eq_def sscanf_s_def sscanf_c_def scan_c_def scan_s_def
  isspace_def store_str_def cmdline_zero_def

lemma split_fields_not_Nil: "split_fields d s \<noteq> []"
  by (induction s) (auto split: list.splits)

lemma split_fields_append: "split_fields d (a @ d # b) = split_fields d a @ split_fields d b"
proof (induction a)
  case Nil
  then show ?case by simp
next
  case (Cons c a)
  then show ?case
    using split_fields_not_Nil [of d a] by (cases "split_fields d a") auto
qed

lemma strtok_all_append:
  "strtok_all d (a @ d # b) = strtok_all d a @ strtok_all d b"
  by (simp add: strtok_all_def split_fields_append)

lemma split_fields_no_delim: "d \<notin> set t \<Longrightarrow> split_fields d t = [t]"
  by (induction t) auto

lemma strtok_all_token: "d \<notin> set t \<Longrightarrow> strtok_all d t = (if t = [] then [] else [t])"
  by (simp add: strtok_all_def split_fields_no_delim)

lemma cstr_append_NUL: "NUL \<in> set a \<Longrightarrow> cstr (a @ b) = cstr a"
  by (simp add: cstr_def)

lemma cstr_append_no_NUL: "NUL \<notin> set a \<Longrightarrow> cstr (a @ b) = a @ cstr b"
  by (induction a) (auto simp: cstr_def)

lemma cmdline_loop_append:
  "cmdline_loop cmd (xs @ ys) =
     (case cmdline_loop cmd xs of Inl e \<Rightarrow> Inl e | Inr c \<Rightarrow> cmdline_loop c ys)"
  by (induction xs arbitrary: cmd) (auto split: sum.splits)

lemma strncmp_eq_prefix: "n = length p \<Longrightarrow> strncmp_eq t p n = prefix p t"
  by (auto simp: strncmp_eq_def prefix_def) (metis append_take_drop_id)

lemma strncmp_slot: "strncmp_eq t ''androidboot.slot'' 16 = prefix ''androidboot.slot'' t"
  by (rule strncmp_eq_prefix) simp

lemma strncmp_slot_suffix:
  "strncmp_eq t ''androidboot.slot_suffix'' 23 = prefix ''androidboot.slot_suffix'' t"
  by (rule strncmp_eq_prefix) simp

lemma slot_ok_zero: "slot_ok cmdline_zero"
  by (simp add: slot_ok_def cmdline_zero_def)

lemma store_str_3:
  assumes "length buf = 3" and "buf ! 2 = NUL" and "store_str 3 buf w = Inr b"
  shows "length b = 3 \<and> b ! 2 = NUL \<and> length w \<le> 2 \<and> b = w @ [NUL] @ drop (length w + 1) buf"
proof -
  from assms(3) have lw: "length w \<le> 2" and b: "b = w @ [NUL] @ drop (length w + 1) buf"
    by (auto simp: store_str_def split: if_splits)
  from assms(1) obtain p q r where buf: "buf = [p, q, r]"
    by (auto simp: numeral_3_eq_3 length_Suc_conv)
  from lw consider "w = []" | x where "w = [x]" | x y where "w = [x, y]"
    by (cases w; cases "tl w"; cases "tl (tl w)") auto
  then have "length b = 3 \<and> b ! 2 = NUL"
    using assms(2) b buf by cases auto
  then show ?thesis using lw b by simp
qed

lemma cmdline_token_slot_ok:
  assumes "slot_ok cmd" and "cmdline_token cmd t = Inr cmd'"
  shows "slot_ok cmd'"
  using assms store_str_3 [of "slot cmd"]
  by (auto simp: cmdline_token_def slot_ok_def Let_def split: if_splits option.splits sum.splits)

lemma cmdline_loop_slot_ok:
  "slot_ok cmd \<Longrightarrow> cmdline_loop cmd ts = Inr cmd' \<Longrightarrow> slot_ok cmd'"
  by (induction ts arbitrary: cmd) (auto split: sum.splits dest: cmdline_token_slot_ok)

lemma match_lit_set: "match_lit f s = Some r \<Longrightarrow> set r \<subseteq> set s"
  by (induction f s rule: match_lit.induct) (auto split: if_splits)

lemma scan_s_set: "scan_s r = Some w \<Longrightarrow> set w \<subseteq> set r"
  by (auto simp: scan_s_def Let_def split: if_splits dest!: set_takeWhileD set_dropWhileD)

lemma sscanf_s_set: "sscanf_s f s = Some w \<Longrightarrow> set w \<subseteq> set s"
  using match_lit_set scan_s_set
  by (fastforce simp: sscanf_s_def split: option.splits)

lemma sscanf_c_set: "sscanf_c f s = Some c \<Longrightarrow> c \<in> set s"
  using match_lit_set
  by (fastforce simp: sscanf_c_def scan_c_def split: option.splits list.splits)

lemma cstr_terminated: "NUL \<notin> set w \<Longrightarrow> cstr (w @ NUL # r) = w"
  by (induction w) (auto simp: cstr_def)

lemma match_lit_prefix: "match_lit f s = Some r \<Longrightarrow> s = f @ r"
  by (induction f s rule: match_lit.induct) (auto split: if_splits)

lemma sscanf_s_prefix: "sscanf_s f s = Some w \<Longrightarrow> prefix f s"
  by (auto simp: sscanf_s_def split: option.splits dest: match_lit_prefix)

lemma slot_update_3:
  assumes "length b = 3" and "b ! 2 = NUL"
  shows "b[0 := x, 1 := y] = [x, y, NUL]"
proof -
  from assms(1) obtain p q r where "b = [p, q, r]"
    by (auto simp: numeral_3_eq_3 length_Suc_conv)
  then show ?thesis using assms(2) by simp
qed

lemma cmdline_token_suffix:
  assumes "sscanf_s ''androidboot.slot_suffix='' t = Some w" and "slot_ok cmd"
    and "NUL \<notin> set t"
  shows "cmdline_token cmd t =
           (if length w \<le> 2 then Inr (cmd\<lparr>slot := w @ [NUL] @ drop (length w + 1) (slot cmd)\<rparr>)
            else Inl BufferOverflow)"
proof -
  have "prefix ''androidboot.slot_suffix='' t"
    using assms(1) by (rule sscanf_s_prefix)
  then have "prefix ''androidboot.slot_suffix'' t"
    by (auto simp: prefix_def)
  then show ?thesis using assms(1)
    by (simp add: cmdline_token_def strncmp_slot_suffix store_str_def)
qed

lemma cmdline_token_slot:
  assumes "\<not> prefix ''androidboot.slot_suffix'' t"
    and "sscanf_c ''androidboot.slot='' t = Some c" and "slot_ok cmd"
  shows "cmdline_token cmd t = Inr (cmd\<lparr>slot := [CHR ''_'', c, NUL]\<rparr>)"
proof -
  have "prefix ''androidboot.slot='' t"
    using assms(2) by (auto simp: sscanf_c_def split: option.splits dest: match_lit_prefix)
  then have "prefix ''androidboot.slot'' t"
    by (auto simp: prefix_def)
  then show ?thesis using assms slot_update_3 [of "slot cmd" "CHR ''_''" c]
    by (simp add: cmdline_token_def strncmp_slot_suffix strncmp_slot slot_ok_def)
qed

lemma cmdline_token_keeps_slot:
  assumes "\<not> prefix ''androidboot.slot'' u"
  shows "\<exists>c'. cmdline_token c u = Inr c' \<and> slot c' = slot c"
proof -
  have "\<not> prefix ''androidboot.slot_suffix'' u"
    using assms by (auto simp: prefix_def)
  then show ?thesis using assms
    by (simp add: cmdline_token_def strncmp_slot strncmp_slot_suffix)
qed

lemma cmdline_loop_keeps_slot:
  assumes "\<forall>u \<in> set us. \<not> prefix ''androidboot.slot'' u"
  shows "\<exists>c'. cmdline_loop c us = Inr c' \<and> slot c' = slot c"
  using assms
proof (induction us arbitrary: c)
  case Nil
  then show ?case by simp
next
  case (Cons u us)
  then obtain c1 where c1: "cmdline_token c u = Inr c1" "slot c1 = slot c"
    using cmdline_token_keeps_slot [of u c] by auto
  from Cons.IH [of c1] Cons.prems obtain c' where "cmdline_loop c1 us = Inr c'" "slot c' = slot c1"
    by auto
  then show ?case using c1 by simp
qed

lemma match_lit_append: "match_lit f (f @ v) = Some v"
  by (induction f) auto

lemma match_lit_iff: "match_lit f s = Some r \<longleftrightarrow> s = f @ r"
  using match_lit_prefix match_lit_append by blast

lemma scan_s_None: "scan_s v = None \<longleftrightarrow> (\<forall>c \<in> set v. isspace c)"
proof -
  have "takeWhile (\<lambda>c. \<not> isspace c) (dropWhile isspace v) = [] \<longleftrightarrow> dropWhile isspace v = []"
    by (metis (mono_tags, lifting) hd_dropWhile takeWhile_eq_Nil_iff takeWhile.simps(1) list.set_sel(1))
  then show ?thesis by (simp add: scan_s_def Let_def dropWhile_eq_Nil_conv)
qed

lemma sscanf_s_None:
  "sscanf_s f t = None \<longleftrightarrow> (\<forall>v. t = f @ v \<longrightarrow> (\<forall>c \<in> set v. isspace c))"
proof (cases "match_lit f t")
  case None
  then show ?thesis using match_lit_append [of f] by (auto simp: sscanf_s_def)
next
  case (Some r)
  then have "t = f @ r" by (rule match_lit_prefix)
  then show ?thesis using Some by (auto simp: sscanf_s_def scan_s_None)
qed

lemma cmdline_token_ignored_iff:
  assumes "t \<noteq> ''skip_initramfs''"
    and "\<forall>v. t = ''androidboot.slot_suffix='' @ v \<longrightarrow> (\<forall>c \<in> set v. isspace c)"
    and "prefix ''androidboot.slot'' t \<longrightarrow> prefix ''androidboot.slot_suffix'' t"
  shows "cmdline_token cmd t = Inr cmd"
proof -
  have n: "sscanf_s ''androidboot.slot_suffix='' t = None"
    using assms(2) by (simp only: sscanf_s_None) 
  show ?thesis
    using assms(1,3) n by (auto simp: cmdline_token_def strncmp_slot strncmp_slot_suffix)
qed


lemma parse_cmdline_single:
  assumes "CHR '' '' \<notin> set t" and "NUL \<notin> set t" and "length t < 4096" and "t \<noteq> []"
  shows "parse_cmdline (Some t) = cmdline_token cmdline_zero t"
proof -
  have "cstr t = t" using assms(2) cstr_append_no_NUL [of t "[]"] by (simp add: cstr_def)
  then show ?thesis using assms
    by (simp add: parse_cmdline_def read_buf_def strtok_all_token split: sum.splits)
qed

lemma parse_cmdline_empty: "parse_cmdline (Some []) = Inr cmdline_zero"
  by (simp add: parse_cmdline_def read_buf_def cstr_def strtok_all_def)

lemma cmdline_token_not_ignored:
  assumes "NUL \<notin> set t"
    and "t = ''skip_initramfs''
       \<or> (\<exists>v. t = ''androidboot.slot_suffix='' @ v \<and> (\<exists>c \<in> set v. \<not> isspace c))
       \<or> (prefix ''androidboot.slot'' t \<and> \<not> prefix ''androidboot.slot_suffix'' t)"
  shows "cmdline_token cmdline_zero t \<noteq> Inr cmdline_zero"
  using assms(2)
proof (elim disjE)
  assume "t = ''skip_initramfs''"
  then show ?thesis by (simp add: cmdline_eval)
next
  assume "\<exists>v. t = ''androidboot.slot_suffix='' @ v \<and> (\<exists>c \<in> set v. \<not> isspace c)"
  then have "sscanf_s ''androidboot.slot_suffix='' t \<noteq> None"
    by (simp only: sscanf_s_None) blast
  then obtain w where w: "sscanf_s ''androidboot.slot_suffix='' t = Some w" by auto
  then have ne: "w \<noteq> []"
    by (auto simp: sscanf_s_def scan_s_def Let_def split: option.splits if_splits)
  have "NUL \<notin> set w" using sscanf_s_set [OF w] assms(1) by auto
  then have hd: "hd w \<noteq> NUL" using ne by (cases w) auto
  have "cmdline_token cmdline_zero t =
           (if length w \<le> 2
            then Inr (cmdline_zero\<lparr>slot := w @ [NUL] @ drop (length w + 1) (slot cmdline_zero)\<rparr>)
            else Inl BufferOverflow)"
    by (rule cmdline_token_suffix [OF w slot_ok_zero assms(1)])
  moreover have "cmdline_zero\<lparr>slot := w @ [NUL] @ drop (length w + 1) (slot cmdline_zero)\<rparr>
      \<noteq> cmdline_zero"
    using ne hd by (cases w) (auto simp: cmdline_zero_def)
  ultimately show ?thesis by (simp split: if_splits)
next
  assume a: "prefix ''androidboot.slot'' t \<and> \<not> prefix ''androidboot.slot_suffix'' t"
  have "CHR ''_'' \<noteq> NUL" by (simp add: NUL_def)
  then show ?thesis using a
    by (auto simp: cmdline_token_def strncmp_slot strncmp_slot_suffix cmdline_zero_def Let_def
        split: option.splits)
qed

lemma cmdline_token_total:
  assumes "slot_ok cmd"
    and "\<forall>w. sscanf_s ''androidboot.slot_suffix='' u = Some w \<longrightarrow> length w \<le> 2"
  shows "\<exists>c'. cmdline_token cmd u = Inr c' \<and> slot_ok c'"
proof -
  have "\<exists>c'. cmdline_token cmd u = Inr c'"
    using assms(2)
    by (auto simp: cmdline_token_def store_str_def Let_def split: option.splits)
  then show ?thesis using cmdline_token_slot_ok [OF assms(1)] by blast
qed

lemma cmdline_loop_total:
  assumes "slot_ok cmd"
    and "\<forall>u \<in> set us. \<forall>w. sscanf_s ''androidboot.slot_suffix='' u = Some w \<longrightarrow> length w \<le> 2"
  shows "\<exists>c'. cmdline_loop cmd us = Inr c' \<and> slot_ok c'"
  using assms
proof (induction us arbitrary: cmd)
  case Nil
  then show ?case by simp
next
  case (Cons u us)
  from cmdline_token_total [OF Cons.prems(1), of u] Cons.prems(2)
  obtain c1 where c1: "cmdline_token cmd u = Inr c1" "slot_ok c1" by auto
  from Cons.IH [OF c1(2)] Cons.prems(2)
  obtain c' where "cmdline_loop c1 us = Inr c'" "slot_ok c'" by auto
  then show ?case using c1(1) by simp
qed

lemma split_fields_set: "t \<in> set (split_fields d s) \<Longrightarrow> set t \<subseteq> set s"
proof (induction s arbitrary: t)
  case Nil
  then show ?case by simp
next
  case (Cons c s)
  show ?case
  proof (cases "c = d")
    case True
    then show ?thesis using Cons by auto
  next
    case False
    obtain x xs where sp: "split_fields d s = x # xs"
      using split_fields_not_Nil [of d s] by (cases "split_fields d s") auto
    then have "t = c # x \<or> t \<in> set xs" using Cons.prems False by auto
    then show ?thesis using Cons.IH sp by fastforce
  qed
qed

lemma strtok_all_set: "t \<in> set (strtok_all d s) \<Longrightarrow> set t \<subseteq> set s \<and> t \<noteq> []"
  using split_fields_set [of t d s] by (auto simp: strtok_all_def)

lemma cstr_no_NUL: "NUL \<notin> set (cstr s)"
  by (auto simp: cstr_def dest: set_takeWhileD)

lemma token_no_NUL: "t \<in> set (strtok_all d (cstr s)) \<Longrightarrow> NUL \<notin> set t"
  using strtok_all_set [of t d "cstr s"] cstr_no_NUL [of s] by auto

lemma parse_cmdline_tokens:
  "length line < 4096 \<Longrightarrow>
     parse_cmdline (Some line) = cmdline_loop cmdline_zero (strtok_all CHR '' '' (cstr line))"
  by (simp add: parse_cmdline_def read_buf_def)

lemma cmdline_loop_drop_token:
  assumes "\<And>c. cmdline_token c t = Inr c"
  shows "cmdline_loop c0 (pre @ t # post) = cmdline_loop c0 (pre @ post)"
  by (simp add: cmdline_loop_append assms split: sum.splits)

lemma cmdline_loop_last_slot_token:
  assumes fits: "\<forall>u \<in> set pre. \<forall>w. sscanf_s ''androidboot.slot_suffix='' u = Some w \<longrightarrow> length w \<le> 2"
    and later: "\<forall>u \<in> set post. \<not> prefix ''androidboot.slot'' u"
  shows "\<exists>ca. slot_ok ca \<and>
     (\<forall>ct. cmdline_token ca t = Inr ct \<longrightarrow>
        (\<exists>cmd. cmdline_loop cmdline_zero (pre @ t # post) = Inr cmd \<and> slot cmd = slot ct))"
proof -
  from cmdline_loop_total [OF slot_ok_zero fits]
  obtain ca where ca: "cmdline_loop cmdline_zero pre = Inr ca" "slot_ok ca"
    by auto
  have "\<exists>cmd. cmdline_loop cmdline_zero (pre @ t # post) = Inr cmd \<and> slot cmd = slot ct"
    if ct: "cmdline_token ca t = Inr ct" for ct
  proof -
    from cmdline_loop_keeps_slot [OF later, of ct]
    obtain cmd where "cmdline_loop ct post = Inr cmd" "slot cmd = slot ct"
      by auto
    then show ?thesis
      using ca(1) ct by (simp add: cmdline_loop_append)
  qed
  then show ?thesis using ca(2) by blast
qed

text \<open>
  Claim C4. The content \<open>androidboot.slot=a skip_initramfs\<close> gives \<open>skip_initramfs = 1\<close>
  and the slot buffer \<open>_a\<close>. The tokens of a command line are its non-empty pieces
  between spaces. A token changes nothing, so that a command line with it and one
  without it parse to the same result, when it is not \<open>skip_initramfs\<close>, is
  not \<open>androidboot.slot_suffix=\<close> followed by a word (a character that is no white
  space), and does not start with \<open>androidboot.slot\<close> unless it starts with
  \<open>androidboot.slot_suffix\<close>. Every other token changes the result of the command line
  that consists of it. Among those are the tokens that start with \<open>androidboot.slot\<close>
  and go on with neither \<open>=\<close> nor \<open>_suffix\<close>: the second branch stores \<open>_\<close> in \<open>slot[0]\<close>
  before \<open>sscanf\<close> fails, as for \<open>androidboot.slotx\<close>, where the first branch, for
  \<open>androidboot.slot_suffixx\<close>, stores nothing. And \<open>/proc/cmdline\<close> ends with a newline:
  there a final \<open>skip_initramfs\<close> is compared together with the newline and is not
  recognised.
\<close>

theorem parse_cmdline_example_and_ignored_tokens:
  "parse_cmdline (Some ''androidboot.slot=a skip_initramfs'')
     = Inr \<lparr>skip_initramfs = 1, slot = [CHR ''_'', CHR ''a'', NUL]\<rparr>
   \<and> (\<forall>l1 l2 pre t post. length l1 < 4096 \<and> length l2 < 4096
          \<and> strtok_all CHR '' '' (cstr l1) = pre @ t # post
          \<and> strtok_all CHR '' '' (cstr l2) = pre @ post
          \<and> t \<noteq> ''skip_initramfs''
          \<and> (\<forall>v. t = ''androidboot.slot_suffix='' @ v \<longrightarrow> (\<forall>c \<in> set v. isspace c))
          \<and> (prefix ''androidboot.slot'' t \<longrightarrow> prefix ''androidboot.slot_suffix'' t)
        \<longrightarrow> parse_cmdline (Some l1) = parse_cmdline (Some l2))
   \<and> (\<forall>t. (t = ''skip_initramfs''
            \<or> (\<exists>v. t = ''androidboot.slot_suffix='' @ v \<and> (\<exists>c \<in> set v. \<not> isspace c))
            \<or> (prefix ''androidboot.slot'' t \<and> \<not> prefix ''androidboot.slot_suffix'' t))
          \<and> CHR '' '' \<notin> set t \<and> NUL \<notin> set t \<and> length t < 4096
        \<longrightarrow> parse_cmdline (Some t) \<noteq> parse_cmdline (Some []))
   \<and> parse_cmdline (Some ''androidboot.slotx'')
       = Inr \<lparr>skip_initramfs = 0, slot = [CHR ''_'', NUL, NUL]\<rparr>
   \<and> parse_cmdline (Some ''androidboot.slot_suffixx'')
       = Inr \<lparr>skip_initramfs = 0, slot = [NUL, NUL, NUL]\<rparr>
   \<and> parse_cmdline (Some ''androidboot.slot=a skip_initramfs\<newline>'')
       = Inr \<lparr>skip_initramfs = 0, slot = [CHR ''_'', CHR ''a'', NUL]\<rparr>"
proof (intro conjI allI impI)
  show "parse_cmdline (Some ''androidboot.slot=a skip_initramfs'')
     = Inr \<lparr>skip_initramfs = 1, slot = [CHR ''_'', CHR ''a'', NUL]\<rparr>"
    by (simp add: cmdline_eval)
next
  fix l1 l2 pre t post
  assume h: "length l1 < 4096 \<and> length l2 < 4096
          \<and> strtok_all CHR '' '' (cstr l1) = pre @ t # post
          \<and> strtok_all CHR '' '' (cstr l2) = pre @ post
          \<and> t \<noteq> ''skip_initramfs''
          \<and> (\<forall>v. t = ''androidboot.slot_suffix='' @ v \<longrightarrow> (\<forall>c \<in> set v. isspace c))
          \<and> (prefix ''androidboot.slot'' t \<longrightarrow> prefix ''androidboot.slot_suffix'' t)"
  then have "cmdline_token c t = Inr c" for c
    by (intro cmdline_token_ignored_iff) blast+
  then have "cmdline_loop cmdline_zero (pre @ t # post) = cmdline_loop cmdline_zero (pre @ post)"
    by (rule cmdline_loop_drop_token)
  then show "parse_cmdline (Some l1) = parse_cmdline (Some l2)"
    using h by (simp add: parse_cmdline_tokens)
next
  fix t
  assume h: "(t = ''skip_initramfs''
            \<or> (\<exists>v. t = ''androidboot.slot_suffix='' @ v \<and> (\<exists>c \<in> set v. \<not> isspace c))
            \<or> (prefix ''androidboot.slot'' t \<and> \<not> prefix ''androidboot.slot_suffix'' t))
          \<and> CHR '' '' \<notin> set t \<and> NUL \<notin> set t \<and> length t < 4096"
  then have ne: "t \<noteq> []" by auto
  have "parse_cmdline (Some t) = cmdline_token cmdline_zero t"
    using h ne by (intro parse_cmdline_single) blast+
  moreover have "cmdline_token cmdline_zero t \<noteq> Inr cmdline_zero"
    using h by (intro cmdline_token_not_ignored) blast+
  ultimately show "parse_cmdline (Some t) \<noteq> parse_cmdline (Some [])"
    by (simp add: parse_cmdline_empty)
next
  show "parse_cmdline (Some ''androidboot.slotx'')
       = Inr \<lparr>skip_initramfs = 0, slot = [CHR ''_'', NUL, NUL]\<rparr>"
    by (simp add: cmdline_eval)
next
  show "parse_cmdline (Some ''androidboot.slot_suffixx'')
       = Inr \<lparr>skip_initramfs = 0, slot = [NUL, NUL, NUL]\<rparr>"
    by (simp add: cmdline_eval)
next
  show "parse_cmdline (Some ''androidboot.slot=a skip_initramfs\<newline>'')
       = Inr \<lparr>skip_initramfs = 0, slot = [CHR ''_'', CHR ''a'', NUL]\<rparr>"
    by (simp add: cmdline_eval)
qed

theorem parse_cmdline_example_and_ignored_tokens_witness:
  "parse_cmdline (Some ''androidboot.slot=a quiet skip_initramfs'')
     = parse_cmdline (Some ''androidboot.slot=a skip_initramfs'')
   \<and> parse_cmdline (Some ''androidboot.slot=a androidboot.slot_suffixes=_b skip_initramfs'')
     = parse_cmdline (Some ''androidboot.slot=a skip_initramfs'')
   \<and> parse_cmdline (Some ''androidboot.slot=a skip_initramfs'')
     = Inr \<lparr>skip_initramfs = 1, slot = [CHR ''_'', CHR ''a'', NUL]\<rparr>
   \<and> parse_cmdline (Some ''androidboot.slotx'') \<noteq> parse_cmdline (Some [])"
proof -
  note ign = parse_cmdline_example_and_ignored_tokens [THEN conjunct2, THEN conjunct1, rule_format]
  have a: "parse_cmdline (Some ''androidboot.slot=a quiet skip_initramfs'')
      = parse_cmdline (Some ''androidboot.slot=a skip_initramfs'')"
    by (rule ign [where pre = "[''androidboot.slot=a'']" and t = "''quiet''"
          and post = "[''skip_initramfs'']"])
      (simp add: strtok_all_def cstr_def NUL_def)
  have b: "parse_cmdline (Some ''androidboot.slot=a androidboot.slot_suffixes=_b skip_initramfs'')
      = parse_cmdline (Some ''androidboot.slot=a skip_initramfs'')"
    by (rule ign [where pre = "[''androidboot.slot=a'']" and t = "''androidboot.slot_suffixes=_b''"
          and post = "[''skip_initramfs'']"])
      (simp add: strtok_all_def cstr_def NUL_def)
  have c: "parse_cmdline (Some ''androidboot.slotx'') \<noteq> parse_cmdline (Some [])"
    by (rule parse_cmdline_example_and_ignored_tokens
        [THEN conjunct2, THEN conjunct2, THEN conjunct1, rule_format])
      (simp add: NUL_def)
  from a b c parse_cmdline_example_and_ignored_tokens [THEN conjunct1]
  show ?thesis by simp
qed

text \<open>
  Claim C5, as the code has it. Let \<open>t\<close> be the last token of the command line that
  starts with \<open>androidboot.slot\<close>, and let no \<open>androidboot.slot_suffix\<close> token before it
  overflow the three bytes of the slot. If \<open>t\<close> is \<open>androidboot.slot_suffix=\<close> followed
  by a value from which \<open>%s\<close> takes the word \<open>w\<close>, of at most two characters, the command
  line parses and the slot is \<open>w\<close>. If \<open>t\<close> is \<open>androidboot.slot=\<close> followed by a character
  \<open>c\<close>, the command line parses and the slot is \<open>_c\<close>. What precedes \<open>t\<close> has no part in
  the result.
\<close>

theorem later_slot_token_wins:
  assumes "length line < 4096"
    and "strtok_all CHR '' '' (cstr line) = pre @ t # post"
    and "\<forall>u \<in> set pre. \<forall>w. sscanf_s ''androidboot.slot_suffix='' u = Some w \<longrightarrow> length w \<le> 2"
    and "\<forall>u \<in> set post. \<not> prefix ''androidboot.slot'' u"
  shows "(\<forall>v w. t = ''androidboot.slot_suffix='' @ v \<and> scan_s v = Some w \<and> length w \<le> 2
            \<longrightarrow> (\<exists>cmd. parse_cmdline (Some line) = Inr cmd \<and> cstr (slot cmd) = w))
       \<and> (\<forall>c v. t = ''androidboot.slot='' @ c # v
            \<longrightarrow> (\<exists>cmd. parse_cmdline (Some line) = Inr cmd \<and> cstr (slot cmd) = [CHR ''_'', c]))"
proof -
  have p: "parse_cmdline (Some line) = cmdline_loop cmdline_zero (pre @ t # post)"
    using parse_cmdline_tokens [OF assms(1)] assms(2) by simp
  have nt: "NUL \<notin> set t"
    using token_no_NUL [of t "CHR '' ''" line] assms(2) by simp
  from cmdline_loop_last_slot_token [OF assms(3,4), of t]
  obtain ca where ca: "slot_ok ca"
    and k: "\<And>ct. cmdline_token ca t = Inr ct \<Longrightarrow>
        \<exists>cmd. parse_cmdline (Some line) = Inr cmd \<and> slot cmd = slot ct"
    unfolding p by blast
  show ?thesis
  proof (intro conjI allI impI)
    fix v w
    assume h: "t = ''androidboot.slot_suffix='' @ v \<and> scan_s v = Some w \<and> length w \<le> 2"
    have w: "sscanf_s ''androidboot.slot_suffix='' t = Some w"
      using h match_lit_append [of "''androidboot.slot_suffix=''" v] by (simp add: sscanf_s_def)
    have nw: "NUL \<notin> set w" using sscanf_s_set [OF w] nt by auto
    have "cmdline_token ca t = Inr (ca\<lparr>slot := w @ [NUL] @ drop (length w + 1) (slot ca)\<rparr>)"
      using cmdline_token_suffix [OF w ca nt] h by simp
    from k [OF this] show "\<exists>cmd. parse_cmdline (Some line) = Inr cmd \<and> cstr (slot cmd) = w"
      using cstr_terminated [OF nw] by auto
  next
    fix c v
    assume h: "t = ''androidboot.slot='' @ c # v"
    have np: "\<not> prefix ''androidboot.slot_suffix'' t" using h by (simp add: prefix_def)
    have sc: "sscanf_c ''androidboot.slot='' t = Some c"
      using h match_lit_append [of "''androidboot.slot=''" "c # v"]
      by (simp add: sscanf_c_def scan_c_def)
    have cn: "c \<noteq> NUL" using h nt by auto
    from k [OF cmdline_token_slot [OF np sc ca]]
    show "\<exists>cmd. parse_cmdline (Some line) = Inr cmd \<and> cstr (slot cmd) = [CHR ''_'', c]"
      using cn by (auto simp: cstr_def NUL_def)
  qed
qed

theorem later_slot_token_wins_witness:
  "(\<exists>cmd. parse_cmdline (Some ''androidboot.slot=a androidboot.slot_suffix=_b\<newline>'')
            = Inr cmd \<and> cstr (slot cmd) = ''_b'')
   \<and> (\<exists>cmd. parse_cmdline (Some ''androidboot.slot_suffix=_b androidboot.slot=a skip_initramfs'')
            = Inr cmd \<and> cstr (slot cmd) = ''_a'')"
proof -
  have t1: "strtok_all CHR '' '' (cstr ''androidboot.slot=a androidboot.slot_suffix=_b\<newline>'')
      = [''androidboot.slot=a''] @ ''androidboot.slot_suffix=_b\<newline>'' # []"
    by (simp add: strtok_all_def cstr_def NUL_def)
  have w1: "\<exists>cmd. parse_cmdline (Some ''androidboot.slot=a androidboot.slot_suffix=_b\<newline>'')
      = Inr cmd \<and> cstr (slot cmd) = ''_b''"
    by (rule later_slot_token_wins [OF _ t1, THEN conjunct1, rule_format, of "''_b\<newline>''" "''_b''"])
      (auto simp: sscanf_s_def scan_s_def isspace_def)
  have t2: "strtok_all CHR '' '' (cstr ''androidboot.slot_suffix=_b androidboot.slot=a skip_initramfs'')
      = [''androidboot.slot_suffix=_b''] @ ''androidboot.slot=a'' # [''skip_initramfs'']"
    by (simp add: strtok_all_def cstr_def NUL_def)
  have w2: "\<exists>cmd. parse_cmdline (Some ''androidboot.slot_suffix=_b androidboot.slot=a skip_initramfs'')
      = Inr cmd \<and> cstr (slot cmd) = [CHR ''_'', CHR ''a'']"
    by (rule later_slot_token_wins [OF _ t2, THEN conjunct2, rule_format, of "CHR ''a''" "[]"])
      (auto simp: sscanf_s_def scan_s_def isspace_def)
  from w1 w2 show ?thesis by simp
qed

text \<open>
  Claim C5 as stated fails when the later token carries no value that \<open>sscanf\<close> assigns:
  for \<open>androidboot.slot_suffix=\<close>, alone or with the newline that ends \<open>/proc/cmdline\<close>,
  \<open>%s\<close> finds no word, and the earlier \<open>androidboot.slot\<close> token decides. Two command
  lines with the same later token end with different slots. It also fails when a further
  token starting with \<open>androidboot.slot\<close> follows the two: after \<open>androidboot.slotz\<close> the
  slot is \<open>_y\<close>, which neither of the two gives.
\<close>

theorem later_slot_token_empty_value_counterexample:
  "parse_cmdline (Some ''androidboot.slot=a androidboot.slot_suffix='')
       = Inr \<lparr>skip_initramfs = 0, slot = [CHR ''_'', CHR ''a'', NUL]\<rparr>
   \<and> parse_cmdline (Some ''androidboot.slot=b androidboot.slot_suffix='')
       = Inr \<lparr>skip_initramfs = 0, slot = [CHR ''_'', CHR ''b'', NUL]\<rparr>
   \<and> parse_cmdline (Some ''androidboot.slot=a androidboot.slot_suffix=\<newline>'')
       = Inr \<lparr>skip_initramfs = 0, slot = [CHR ''_'', CHR ''a'', NUL]\<rparr>
   \<and> parse_cmdline (Some ''androidboot.slot=a androidboot.slot_suffix=xy androidboot.slotz'')
       = Inr \<lparr>skip_initramfs = 0, slot = [CHR ''_'', CHR ''y'', NUL]\<rparr>"
  by (simp add: cmdline_eval)

section \<open>Properties of the image scan and of patch_ramdisk\<close>

lemma memcpy_at_nat:
  "memcpy_at buf (int k) src n =
     (if k + n \<le> length buf \<and> n \<le> length src
      then Inr (take k buf @ take n src @ drop (k + n) buf) else Inl OutOfBounds)"
  by (simp add: memcpy_at_def)

lemma memcmp_at_inside:
  "i + length pat \<le> length mem \<Longrightarrow> memcmp_at mem i pat = Inr (take (length pat) (drop i mem) = pat)"
  by (simp add: memcmp_at_def)

lemma memcmp_at_outside:
  "length mem < i + length pat \<Longrightarrow> memcmp_at mem i pat = Inl OutOfBounds"
  by (simp add: memcmp_at_def)

lemma find_from_Some:
  "find_from mem pat i k = Inr (Some j) \<Longrightarrow>
     i \<le> j \<and> j < i + k \<and> j + length pat \<le> length mem
     \<and> take (length pat) (drop j mem) = pat
     \<and> (\<forall>m. i \<le> m \<and> m < j \<longrightarrow> take (length pat) (drop m mem) \<noteq> pat)"
proof (induction k arbitrary: i)
  case 0
  then show ?case by simp
next
  case (Suc k)
  show ?case
  proof (cases "memcmp_at mem i pat")
    case (Inl x)
    then show ?thesis using Suc.prems by simp
  next
    case (Inr b)
    then have fit: "i + length pat \<le> length mem" and b: "b = (take (length pat) (drop i mem) = pat)"
      by (auto simp: memcmp_at_def split: if_splits)
    show ?thesis
    proof (cases b)
      case True
      then show ?thesis using Suc.prems Inr fit b by auto
    next
      case False
      with Suc.prems Inr have "find_from mem pat (Suc i) k = Inr (Some j)" by simp
      from Suc.IH [OF this]
      have ih: "Suc i \<le> j" "j < Suc i + k" "j + length pat \<le> length mem"
        "take (length pat) (drop j mem) = pat"
        "\<And>m. Suc i \<le> m \<Longrightarrow> m < j \<Longrightarrow> take (length pat) (drop m mem) \<noteq> pat"
        by auto
      have "take (length pat) (drop m mem) \<noteq> pat" if "i \<le> m" "m < j" for m
      proof (cases "m = i")
        case True
        then show ?thesis using False b by simp
      next
        case False
        then have "Suc i \<le> m" using that(1) by simp
        then show ?thesis using ih(5) that(2) by simp
      qed
      then show ?thesis using ih(1-4) by auto
    qed
  qed
qed

lemma find_from_None:
  "find_from mem pat i k = Inr None \<Longrightarrow>
     \<forall>m. i \<le> m \<and> m < i + k \<longrightarrow> take (length pat) (drop m mem) \<noteq> pat"
proof (induction k arbitrary: i)
  case 0
  then show ?case by auto
next
  case (Suc k)
  then have a: "take (length pat) (drop i mem) \<noteq> pat"
    and b: "find_from mem pat (Suc i) k = Inr None"
    by (auto simp: memcmp_at_def split: if_splits sum.splits bool.splits)
  from Suc.IH [OF b]
  have ih: "\<And>m. Suc i \<le> m \<Longrightarrow> m < Suc i + k \<Longrightarrow> take (length pat) (drop m mem) \<noteq> pat"
    by auto
  have "take (length pat) (drop m mem) \<noteq> pat" if "i \<le> m" "m < i + Suc k" for m
  proof (cases "m = i")
    case True
    then show ?thesis using a by simp
  next
    case False
    then have "Suc i \<le> m" using that(1) by simp
    then show ?thesis using ih that(2) by simp
  qed
  then show ?case by auto
qed

lemma find_from_first:
  assumes "take (length pat) (drop j mem) = pat"
    and "\<forall>m. i \<le> m \<and> m < j \<longrightarrow> take (length pat) (drop m mem) \<noteq> pat"
    and "i \<le> j" and "j < i + k" and "j + length pat \<le> length mem"
  shows "find_from mem pat i k = Inr (Some j)"
  using assms
proof (induction k arbitrary: i)
  case 0
  then show ?case by simp
next
  case (Suc k)
  have fit: "i + length pat \<le> length mem" using Suc.prems(3,5) by simp
  show ?case
  proof (cases "i = j")
    case True
    with Suc.prems fit show ?thesis by (simp add: memcmp_at_def)
  next
    case False
    with Suc.prems have "take (length pat) (drop i mem) \<noteq> pat" by auto
    moreover have "find_from mem pat (Suc i) k = Inr (Some j)"
      using Suc.prems False by (intro Suc.IH) auto
    ultimately show ?thesis using fit by (simp add: memcmp_at_def)
  qed
qed



lemma stands_inside:
  assumes "m + n \<le> length img"
  shows "take n (drop m (img @ rest)) = take n (drop m img)"
  using assms by simp









lemma file_content_munmap_rw:
  "file_content fs p = Some d \<Longrightarrow> file_content (munmap_rw fs p buf) p = Some buf"
  by (auto simp: file_content_def lookup_def munmap_rw_def ino_of_def
      split: option.splits inode.splits)









section \<open>Properties of patch_socket_name\<close>

lemma find_first_inside:
  assumes hit: "take (length pat) (drop i img) = pat"
    and first: "\<forall>m<i. take (length pat) (drop m img) \<noteq> pat"
    and ne: "pat \<noteq> []"
  shows "find_first (img @ rest) (length img) pat = Inr (Some i)"
proof -
  have "length (take (length pat) (drop i img)) = length pat" using hit by simp
  then have fit: "i + length pat \<le> length img" using ne by (cases pat) auto
  then have i: "i < length img" using ne by (cases pat) auto
  have a: "take (length pat) (drop i (img @ rest)) = pat" using hit fit by simp
  have b: "\<forall>m. 0 \<le> m \<and> m < i \<longrightarrow> take (length pat) (drop m (img @ rest)) \<noteq> pat"
    using first fit by simp
  show ?thesis unfolding find_first_def
    using a b i fit by (intro find_from_first) auto
qed

lemma memcpy_inside:
  assumes "i + n \<le> length img" and "length src = n"
  shows "memcpy_at (img @ rest) (int i) src n = Inr (take i img @ src @ drop (i + n) img @ rest)"
  using assms by (simp add: memcpy_at_nat)

lemma unmapped_inside:
  assumes "i + n \<le> length img" and "length src = n"
  shows "unmapped (length img) (take i img @ src @ drop (i + n) img @ rest)
           = take i img @ src @ drop (i + n) img"
proof -
  have "length (take i img @ src @ drop (i + n) img) = length img" using assms by auto
  then show ?thesis unfolding unmapped_def
    by (metis append_assoc append_eq_conv_conj)
qed

lemma patch_socket_name_cached:
  assumes c: "file_content (filesys w) p = Some img"
    and off: "SOCKET_OFF w = int i"
    and fit: "i + (length (SOCKET_NAME e) + 1) \<le> length img"
    and rnd: "length (gen_rand_str e (rand_calls w) (length (SOCKET_NAME e) + 1))
                = length (SOCKET_NAME e) + 1"
  shows "\<exists>w'. patch_socket_name e p w = Inr w' \<and> SOCKET_OFF w' = int i
     \<and> rand_calls w' = Suc (rand_calls w)
     \<and> file_content (filesys w') p
         = Some (take i img @ gen_rand_str e (rand_calls w) (length (SOCKET_NAME e) + 1)
                 @ drop (i + (length (SOCKET_NAME e) + 1)) img)"
proof -
  let ?r = "gen_rand_str e (rand_calls w) (Suc (length (SOCKET_NAME e)))"
  have mc: "memcpy_at (img @ behind e img) (int i) ?r (Suc (length (SOCKET_NAME e)))
      = Inr (take i img @ ?r @ drop (Suc (i + length (SOCKET_NAME e))) img @ behind e img)"
    using memcpy_inside [OF fit rnd, of "behind e img"] by simp
  have um: "unmapped (length img)
        (take i img @ ?r @ drop (Suc (i + length (SOCKET_NAME e))) img @ behind e img)
      = take i img @ ?r @ drop (Suc (i + length (SOCKET_NAME e))) img"
    using unmapped_inside [OF fit rnd, of "behind e img"] by simp
  show ?thesis
    using c off file_content_munmap_rw [OF c]
    by (simp add: patch_socket_name_def mmap_file_def Let_def mapped_def mc um)
qed

lemma patch_socket_name_first:
  assumes c: "file_content (filesys w) p = Some img"
    and off: "SOCKET_OFF w < 0"
    and hit: "take (length (SOCKET_NAME e) + 1) (drop i img) = SOCKET_NAME e @ [NUL]"
    and first: "\<forall>m<i. take (length (SOCKET_NAME e) + 1) (drop m img) \<noteq> SOCKET_NAME e @ [NUL]"
    and rnd: "length (gen_rand_str e (rand_calls w) (length (SOCKET_NAME e) + 1))
                = length (SOCKET_NAME e) + 1"
  shows "\<exists>w'. patch_socket_name e p w = Inr w' \<and> SOCKET_OFF w' = int i
     \<and> rand_calls w' = Suc (rand_calls w)
     \<and> file_content (filesys w') p
         = Some (take i img @ gen_rand_str e (rand_calls w) (length (SOCKET_NAME e) + 1)
                 @ drop (i + (length (SOCKET_NAME e) + 1)) img)"
proof -
  let ?pat = "SOCKET_NAME e @ [NUL]"
  have f: "find_first (img @ behind e img) (length img) ?pat = Inr (Some i)"
    using hit first by (intro find_first_inside) auto
  have "length (take (length (SOCKET_NAME e) + 1) (drop i img)) = length (SOCKET_NAME e) + 1"
    using hit by simp
  then have fit: "i + (length (SOCKET_NAME e) + 1) \<le> length img" by simp
  let ?r = "gen_rand_str e (rand_calls w) (Suc (length (SOCKET_NAME e)))"
  have mc: "memcpy_at (img @ behind e img) (int i) ?r (Suc (length (SOCKET_NAME e)))
      = Inr (take i img @ ?r @ drop (Suc (i + length (SOCKET_NAME e))) img @ behind e img)"
    using memcpy_inside [OF fit rnd, of "behind e img"] by simp
  have um: "unmapped (length img)
        (take i img @ ?r @ drop (Suc (i + length (SOCKET_NAME e))) img @ behind e img)
      = take i img @ ?r @ drop (Suc (i + length (SOCKET_NAME e))) img"
    using unmapped_inside [OF fit rnd, of "behind e img"] by simp
  show ?thesis
    using c off f file_content_munmap_rw [OF c]
    by (simp add: patch_socket_name_def mmap_file_def Let_def mapped_def mc um)
qed

text \<open>
  Claim C7. Let the placeholder, with its NUL, first stand at offset \<open>i\<close> of the file, let
  \<open>SOCKET_OFF\<close> be negative as at program start, and let \<open>gen_rand_str\<close> fill its buffer.
  The first call sets \<open>SOCKET_OFF\<close> to \<open>i\<close> and replaces the \<open>sizeof(SOCKET_NAME)\<close> bytes at
  \<open>i\<close>; the second call does the same at the same offset, although the placeholder is no
  longer there to be found. The file keeps its length through both. The last conjunct is
  the cache at work: once \<open>SOCKET_OFF\<close> is \<open>i\<close>, the write goes to offset \<open>i\<close> of whatever
  image the file holds, without a scan.
\<close>

theorem patch_socket_name_twice:
  assumes "file_content (filesys w) p = Some img"
    and "SOCKET_OFF w < 0"
    and "take (length (SOCKET_NAME e) + 1) (drop i img) = SOCKET_NAME e @ [NUL]"
    and "\<forall>m<i. take (length (SOCKET_NAME e) + 1) (drop m img) \<noteq> SOCKET_NAME e @ [NUL]"
    and "\<forall>k. length (gen_rand_str e k (length (SOCKET_NAME e) + 1)) = length (SOCKET_NAME e) + 1"
  shows "\<exists>w1 w2 img1 img2.
       patch_socket_name e p w = Inr w1 \<and> SOCKET_OFF w1 = int i
     \<and> file_content (filesys w1) p = Some img1
     \<and> img1 = take i img @ gen_rand_str e (rand_calls w) (length (SOCKET_NAME e) + 1)
                @ drop (i + (length (SOCKET_NAME e) + 1)) img
     \<and> length img1 = length img
     \<and> patch_socket_name e p w1 = Inr w2 \<and> SOCKET_OFF w2 = int i
     \<and> file_content (filesys w2) p = Some img2
     \<and> img2 = take i img1 @ gen_rand_str e (Suc (rand_calls w)) (length (SOCKET_NAME e) + 1)
                @ drop (i + (length (SOCKET_NAME e) + 1)) img1
     \<and> length img2 = length img
     \<and> (\<forall>w' img'. SOCKET_OFF w' = int i \<and> file_content (filesys w') p = Some img'
            \<and> i + (length (SOCKET_NAME e) + 1) \<le> length img'
          \<longrightarrow> (\<exists>w''. patch_socket_name e p w' = Inr w'' \<and> SOCKET_OFF w'' = int i
                \<and> file_content (filesys w'') p
                    = Some (take i img' @ gen_rand_str e (rand_calls w') (length (SOCKET_NAME e) + 1)
                            @ drop (i + (length (SOCKET_NAME e) + 1)) img')))"
proof -
  let ?n = "length (SOCKET_NAME e) + 1"
  have rnd: "length (gen_rand_str e k ?n) = ?n" for k
    using assms(5) by blast
  have fit: "i + ?n \<le> length img"
  proof -
    have "length (take ?n (drop i img)) = ?n" using assms(3) by simp
    then show ?thesis by simp
  qed
  from patch_socket_name_first [OF assms(1-4) rnd] obtain w1 where
    w1: "patch_socket_name e p w = Inr w1" "SOCKET_OFF w1 = int i"
      "rand_calls w1 = Suc (rand_calls w)"
      "file_content (filesys w1) p
         = Some (take i img @ gen_rand_str e (rand_calls w) ?n @ drop (i + ?n) img)"
    by blast
  define img1 where "img1 = take i img @ gen_rand_str e (rand_calls w) ?n @ drop (i + ?n) img"
  have l1: "length img1 = length img"
    using fit rnd [of "rand_calls w"] by (simp add: img1_def)
  have c1: "file_content (filesys w1) p = Some img1"
    using w1(4) by (simp add: img1_def)
  have fit1: "i + ?n \<le> length img1" using fit l1 by simp
  from patch_socket_name_cached [OF c1 w1(2) fit1 rnd] obtain w2 where
    w2: "patch_socket_name e p w1 = Inr w2" "SOCKET_OFF w2 = int i"
      "file_content (filesys w2) p
         = Some (take i img1 @ gen_rand_str e (rand_calls w1) ?n @ drop (i + ?n) img1)"
    by blast
  define img2 where "img2 = take i img1 @ gen_rand_str e (Suc (rand_calls w)) ?n @ drop (i + ?n) img1"
  have l2: "length img2 = length img"
    using fit1 l1 rnd [of "Suc (rand_calls w)"] by (simp add: img2_def)
  have c2: "file_content (filesys w2) p = Some img2"
    using w2(3) w1(3) by (simp add: img2_def)
  have cached: "\<exists>w''. patch_socket_name e p w' = Inr w'' \<and> SOCKET_OFF w'' = int i
                \<and> file_content (filesys w'') p
                    = Some (take i img' @ gen_rand_str e (rand_calls w') ?n @ drop (i + ?n) img')"
    if "SOCKET_OFF w' = int i \<and> file_content (filesys w') p = Some img' \<and> i + ?n \<le> length img'"
    for w' img'
    using patch_socket_name_cached [of w' p img' i e] that rnd by blast
  show ?thesis
    using w1(1,2) c1 l1 w2(1,2) c2 l2 cached img1_def img2_def by blast
qed

theorem patch_socket_name_twice_witness:
  "\<exists>w1 w2. patch_socket_name example_env ''/sbin/magisk'' (world_of fs_magisk) = Inr w1
     \<and> SOCKET_OFF w1 = 4
     \<and> file_content (filesys w1) ''/sbin/magisk'' = Some (''ELF:aaaaaaaa'' @ [NUL] @ '':end'')
     \<and> patch_socket_name example_env ''/sbin/magisk'' w1 = Inr w2
     \<and> SOCKET_OFF w2 = 4
     \<and> file_content (filesys w2) ''/sbin/magisk'' = Some (''ELF:bbbbbbbb'' @ [NUL] @ '':end'')
     \<and> length (''ELF:bbbbbbbb'' @ [NUL] @ '':end'') = length (''ELF:d30138f2'' @ [NUL] @ '':end'')"
proof -
  have a: "file_content (filesys (world_of fs_magisk)) ''/sbin/magisk''
             = Some (''ELF:d30138f2'' @ [NUL] @ '':end'')"
    by (simp add: world_of_def fs_magisk_def fs_eval)
  have b: "SOCKET_OFF (world_of fs_magisk) < 0"
    by (simp add: world_of_def)
  have c: "take (length (SOCKET_NAME example_env) + 1) (drop 4 (''ELF:d30138f2'' @ [NUL] @ '':end''))
             = SOCKET_NAME example_env @ [NUL]"
    by (simp add: example_env_fields)
  have d: "\<forall>m<4. take (length (SOCKET_NAME example_env) + 1) (drop m (''ELF:d30138f2'' @ [NUL] @ '':end''))
             \<noteq> SOCKET_NAME example_env @ [NUL]"
    by (simp add: example_env_fields less_Suc_eq numeral_eq_Suc NUL_def)
  have g: "\<forall>k. length (gen_rand_str example_env k (length (SOCKET_NAME example_env) + 1))
             = length (SOCKET_NAME example_env) + 1"
    by (simp add: example_env_fields)
  from patch_socket_name_twice [OF a b c d g] obtain w1 w2 img1 img2 where
    r: "patch_socket_name example_env ''/sbin/magisk'' (world_of fs_magisk) = Inr w1"
      "SOCKET_OFF w1 = int 4"
      "file_content (filesys w1) ''/sbin/magisk'' = Some img1"
      "img1 = take 4 (''ELF:d30138f2'' @ [NUL] @ '':end'')
         @ gen_rand_str example_env (rand_calls (world_of fs_magisk)) (length (SOCKET_NAME example_env) + 1)
         @ drop (4 + (length (SOCKET_NAME example_env) + 1)) (''ELF:d30138f2'' @ [NUL] @ '':end'')"
      "patch_socket_name example_env ''/sbin/magisk'' w1 = Inr w2"
      "SOCKET_OFF w2 = int 4"
      "file_content (filesys w2) ''/sbin/magisk'' = Some img2"
      "img2 = take 4 img1
         @ gen_rand_str example_env (Suc (rand_calls (world_of fs_magisk))) (length (SOCKET_NAME example_env) + 1)
         @ drop (4 + (length (SOCKET_NAME example_env) + 1)) img1"
    by blast
  have i1: "img1 = ''ELF:aaaaaaaa'' @ [NUL] @ '':end''"
    using r(4) by (simp add: example_env_fields world_of_def numeral_eq_Suc)
  have i2: "img2 = ''ELF:bbbbbbbb'' @ [NUL] @ '':end''"
    using r(8) unfolding i1 by (simp add: example_env_fields world_of_def numeral_eq_Suc)
  show ?thesis using r(1,2,3,5,6,7) i1 i2 by auto
qed

section \<open>Properties of unxz and dump_magisk\<close>

lemma map_of_filter_other:
  "q \<noteq> p \<Longrightarrow> map_of (filter (\<lambda>e. fst e \<noteq> p) xs) q = map_of xs q"
  by (induction xs) auto

lemma map_of_filter_self: "map_of (filter (\<lambda>e. fst e \<noteq> p) xs) p = None"
  by (induction xs) auto

lemma ino_of_unlink_self: "\<not> is_dir fs p \<Longrightarrow> ino_of (unlink fs p) p = None"
  by (simp add: unlink_def ino_of_def map_of_filter_self)

lemma ino_of_unlink_other: "q \<noteq> p \<Longrightarrow> ino_of (unlink fs p) q = ino_of fs q"
  by (simp add: unlink_def ino_of_def map_of_filter_other)

lemma inodes_unlink: "inodes (unlink fs p) = inodes fs"
  by (simp add: unlink_def)


lemma lookup_unlink_other: "q \<noteq> p \<Longrightarrow> lookup (unlink fs p) q = lookup fs q"
  by (simp add: lookup_def ino_of_unlink_other inodes_unlink split: option.splits)

lemma is_dir_unlink_other: "q \<noteq> p \<Longrightarrow> is_dir (unlink fs p) q = is_dir fs q"
  by (simp add: is_dir_def lookup_unlink_other)











section \<open>Properties of parse_device and setup_block\<close>

lemma strncmp_MAJOR: "strncmp_eq t ''MAJOR'' 5 = prefix ''MAJOR'' t"
  by (rule strncmp_eq_prefix) simp

lemma strncmp_MINOR: "strncmp_eq t ''MINOR'' 5 = prefix ''MINOR'' t"
  by (rule strncmp_eq_prefix) simp

lemma strncmp_DEVNAME: "strncmp_eq t ''DEVNAME'' 7 = prefix ''DEVNAME'' t"
  by (rule strncmp_eq_prefix) simp

lemma strncmp_PARTNAME: "strncmp_eq t ''PARTNAME'' 8 = prefix ''PARTNAME'' t"
  by (rule strncmp_eq_prefix) simp

lemmas strncmp_device = strncmp_MAJOR strncmp_MINOR strncmp_DEVNAME strncmp_PARTNAME

lemma sscanf_ld_prefix: "sscanf_ld f s = Some v \<Longrightarrow> prefix f s"
  by (auto simp: sscanf_ld_def split: option.splits dest: match_lit_prefix)

lemma key_prefixes:
  "prefix ''MAJOR='' l \<Longrightarrow> prefix ''MAJOR'' l"
  "prefix ''MINOR='' l \<Longrightarrow> prefix ''MINOR'' l \<and> \<not> prefix ''MAJOR'' l"
  "prefix ''DEVNAME='' l \<Longrightarrow> prefix ''DEVNAME'' l \<and> \<not> prefix ''MAJOR'' l \<and> \<not> prefix ''MINOR'' l"
  "prefix ''PARTNAME='' l \<Longrightarrow> prefix ''PARTNAME'' l \<and> \<not> prefix ''MAJOR'' l
      \<and> \<not> prefix ''MINOR'' l \<and> \<not> prefix ''DEVNAME'' l"
  by (auto simp: prefix_def)

lemma key_scans:
  "sscanf_ld ''MAJOR='' l = Some v \<Longrightarrow> prefix ''MAJOR'' l"
  "sscanf_ld ''MINOR='' l = Some v \<Longrightarrow> prefix ''MINOR'' l \<and> \<not> prefix ''MAJOR'' l"
  "sscanf_s ''DEVNAME='' l = Some w \<Longrightarrow>
     prefix ''DEVNAME'' l \<and> \<not> prefix ''MAJOR'' l \<and> \<not> prefix ''MINOR'' l"
  "sscanf_s ''PARTNAME='' l = Some w \<Longrightarrow>
     prefix ''PARTNAME'' l \<and> \<not> prefix ''MAJOR'' l \<and> \<not> prefix ''MINOR'' l \<and> \<not> prefix ''DEVNAME'' l"
  using key_prefixes sscanf_ld_prefix sscanf_s_prefix by blast+

lemma device_line_fields:
  assumes "device_line e dev l = Inr dev'"
  shows "major dev' = (case sscanf_ld ''MAJOR='' l of None \<Rightarrow> major dev | Some v \<Rightarrow> to_long e v)"
    and "minor dev' = (case sscanf_ld ''MINOR='' l of None \<Rightarrow> minor dev | Some v \<Rightarrow> to_long e v)"
    and "devname dev' = (case sscanf_s ''DEVNAME='' l of None \<Rightarrow> devname dev | Some w \<Rightarrow> w)"
    and "partname dev' = (case sscanf_s ''PARTNAME='' l of None \<Rightarrow> partname dev | Some w \<Rightarrow> w)"
    and "path dev' = path dev"
  using assms key_scans [of l]
  by (auto simp: device_line_def strncmp_device split: if_splits option.splits)

lemma device_line_total:
  assumes "line_fits l"
  shows "\<exists>dev'. device_line e dev l = Inr dev'"
  using assms key_scans(3,4) [of l]
  by (auto simp: device_line_def line_fits_def strncmp_device split: option.splits)

lemma last_some_append:
  "last_some f (xs @ ys) = (case last_some f ys of None \<Rightarrow> last_some f xs | Some y \<Rightarrow> Some y)"
  by (induction xs) (auto split: option.splits)

lemma device_loop_fields:
  assumes "device_loop e dev ls = Inr dev'"
  shows "major dev' = (case last_long e ''MAJOR'' ls of None \<Rightarrow> major dev | Some v \<Rightarrow> v)
     \<and> minor dev' = (case last_long e ''MINOR'' ls of None \<Rightarrow> minor dev | Some v \<Rightarrow> v)
     \<and> devname dev' = (case last_word ''DEVNAME'' ls of None \<Rightarrow> devname dev | Some w \<Rightarrow> w)
     \<and> partname dev' = (case last_word ''PARTNAME'' ls of None \<Rightarrow> partname dev | Some w \<Rightarrow> w)
     \<and> path dev' = path dev"
  using assms
proof (induction ls arbitrary: dev)
  case Nil
  then show ?case by (simp add: last_long_def last_word_def)
next
  case (Cons l ls)
  then obtain d1 where d: "device_line e dev l = Inr d1" "device_loop e d1 ls = Inr dev'"
    by (auto split: sum.splits)
  from Cons.IH [OF d(2)] device_line_fields [OF d(1)]
  show ?case
    by (auto simp: last_long_def last_word_def split: option.splits)
qed

lemma device_loop_total:
  assumes "list_all line_fits ls"
  shows "\<exists>dev'. device_loop e dev ls = Inr dev'"
  using assms
proof (induction ls arbitrary: dev)
  case Nil
  then show ?case by simp
next
  case (Cons l ls)
  from device_line_total [of l e dev] Cons.prems obtain d1 where "device_line e dev l = Inr d1"
    by auto
  moreover from Cons.IH [of d1] Cons.prems obtain d2 where "device_loop e d1 ls = Inr d2"
    by auto
  ultimately show ?case by simp
qed

lemma parse_device_fields:
  assumes "parse_device e dev text = Inr dev'"
  shows "major dev' = (case last_long e ''MAJOR'' (uevent_lines text) of None \<Rightarrow> major dev | Some v \<Rightarrow> v)
     \<and> minor dev' = (case last_long e ''MINOR'' (uevent_lines text) of None \<Rightarrow> minor dev | Some v \<Rightarrow> v)
     \<and> devname dev' = (case last_word ''DEVNAME'' (uevent_lines text) of None \<Rightarrow> devname dev | Some w \<Rightarrow> w)
     \<and> partname dev' = partname_word text
     \<and> path dev' = path dev"
  using device_loop_fields [of e "dev\<lparr>partname := []\<rparr>" "uevent_lines text" dev'] assms
  by (auto simp: parse_device_def uevent_lines_def partname_word_def split: option.splits)

lemma parse_device_total:
  assumes "list_all line_fits (uevent_lines text)"
  shows "\<exists>dev'. parse_device e dev text = Inr dev'"
  using device_loop_total [OF assms] by (simp add: parse_device_def uevent_lines_def)

lemma entry_ok_read:
  assumes "entry_ok fs x"
  shows "read_buf 1024 (file_content fs (uevent_path x)) = Inr (entry_text fs x)
     \<and> list_all line_fits (uevent_lines (entry_text fs x))"
  using assms by (auto simp: entry_ok_def entry_text_def read_buf_def split: option.splits)

lemma scanned_lines_Cons:
  "scanned_lines fs (x # xs) =
     (if x = ''.'' \<or> x = ''..'' then scanned_lines fs xs
      else uevent_lines (entry_text fs x) @ scanned_lines fs xs)"
  by (simp add: scanned_lines_def)

lemma scanned_lines_append:
  "scanned_lines fs (xs @ ys) = scanned_lines fs xs @ scanned_lines fs ys"
  by (simp add: scanned_lines_def)

lemma block_scan_miss:
  assumes "\<forall>x \<in> set pre. x = ''.'' \<or> x = ''..'' \<or>
      (entry_ok fs x \<and> partname_word (entry_text fs x) \<noteq> pn)"
  shows "\<exists>d1. block_scan e fs pn dev pre = Inr (False, d1)
     \<and> major d1 = (case last_long e ''MAJOR'' (scanned_lines fs pre) of None \<Rightarrow> major dev | Some v \<Rightarrow> v)
     \<and> minor d1 = (case last_long e ''MINOR'' (scanned_lines fs pre) of None \<Rightarrow> minor dev | Some v \<Rightarrow> v)
     \<and> devname d1 = (case last_word ''DEVNAME'' (scanned_lines fs pre) of None \<Rightarrow> devname dev | Some w \<Rightarrow> w)"
  using assms
proof (induction pre arbitrary: dev)
  case Nil
  then show ?case by (simp add: scanned_lines_def last_long_def last_word_def)
next
  case (Cons x pre)
  from Cons.prems have rest: "\<forall>y \<in> set pre. y = ''.'' \<or> y = ''..'' \<or>
      (entry_ok fs y \<and> partname_word (entry_text fs y) \<noteq> pn)"
    by auto
  show ?case
  proof (cases "x = ''.'' \<or> x = ''..''")
    case True
    then show ?thesis using Cons.IH [OF rest, of dev] by (auto simp: scanned_lines_Cons)
  next
    case False
    with Cons.prems have ok: "entry_ok fs x" and np: "partname_word (entry_text fs x) \<noteq> pn"
      by auto
    from entry_ok_read [OF ok]
    have rb: "read_buf 1024 (file_content fs (uevent_path x)) = Inr (entry_text fs x)"
      and fit: "list_all line_fits (uevent_lines (entry_text fs x))"
      by auto
    from parse_device_total [OF fit, of e dev]
    obtain d' where d': "parse_device e dev (entry_text fs x) = Inr d'" ..
    note f = parse_device_fields [OF d']
    from Cons.IH [OF rest, of d'] obtain d1 where
      d1: "block_scan e fs pn d' pre = Inr (False, d1)"
        "major d1 = (case last_long e ''MAJOR'' (scanned_lines fs pre) of None \<Rightarrow> major d' | Some v \<Rightarrow> v)"
        "minor d1 = (case last_long e ''MINOR'' (scanned_lines fs pre) of None \<Rightarrow> minor d' | Some v \<Rightarrow> v)"
        "devname d1 = (case last_word ''DEVNAME'' (scanned_lines fs pre) of None \<Rightarrow> devname d' | Some w \<Rightarrow> w)"
      by blast
    have "block_scan e fs pn dev (x # pre) = Inr (False, d1)"
      using False rb d' f np d1(1) by simp
    moreover have "major d1 = (case last_long e ''MAJOR'' (scanned_lines fs (x # pre)) of
        None \<Rightarrow> major dev | Some v \<Rightarrow> v)"
      using False d1(2) f
      by (simp add: scanned_lines_Cons last_long_def last_some_append split: option.splits)
    moreover have "minor d1 = (case last_long e ''MINOR'' (scanned_lines fs (x # pre)) of
        None \<Rightarrow> minor dev | Some v \<Rightarrow> v)"
      using False d1(3) f
      by (simp add: scanned_lines_Cons last_long_def last_some_append split: option.splits)
    moreover have "devname d1 = (case last_word ''DEVNAME'' (scanned_lines fs (x # pre)) of
        None \<Rightarrow> devname dev | Some w \<Rightarrow> w)"
      using False d1(4) f
      by (simp add: scanned_lines_Cons last_word_def last_some_append split: option.splits)
    ultimately show ?thesis by blast
  qed
qed

lemma block_scan_append:
  "block_scan e fs pn dev (pre @ rest) =
     (case block_scan e fs pn dev pre of
        Inl x \<Rightarrow> Inl x
      | Inr r \<Rightarrow> if fst r then Inr r else block_scan e fs pn (snd r) rest)"
  by (induction pre arbitrary: dev) (auto split: sum.splits)

lemma lookup_mknod:
  assumes "can_create fs p"
  shows "lookup (mknod fs p n) p = Some n"
  using assms
  by (simp add: mknod_def can_create_def new_node_def lookup_def ino_of_def map_add_def)

lemma setup_block_found:
  assumes rd: "readdir fs ''/sys/dev/block'' = Some (pre @ d_name # post)"
    and pre: "\<forall>x \<in> set pre. x = ''.'' \<or> x = ''..'' \<or>
                (entry_ok fs x \<and> partname_word (entry_text fs x) \<noteq> pn)"
    and nm: "d_name \<noteq> ''.''" "d_name \<noteq> ''..''"
    and ok: "entry_ok fs d_name"
    and match: "partname_word (entry_text fs d_name) = pn"
  shows "\<exists>dev'. setup_block e dev0 pn fs =
       Inr (0, dev',
            mknod (mkdir (mkdir fs ''/dev'' mode_0755) ''/dev/block'' mode_0755) (path dev')
              (BlockDev mode_0600 (makedev e (major dev') (minor dev'))))
     \<and> major dev' = (case last_long e ''MAJOR'' (scanned_lines fs (pre @ [d_name])) of
                       None \<Rightarrow> major dev0 | Some v \<Rightarrow> v)
     \<and> minor dev' = (case last_long e ''MINOR'' (scanned_lines fs (pre @ [d_name])) of
                       None \<Rightarrow> minor dev0 | Some v \<Rightarrow> v)
     \<and> devname dev' = (case last_word ''DEVNAME'' (scanned_lines fs (pre @ [d_name])) of
                         None \<Rightarrow> devname dev0 | Some w \<Rightarrow> w)
     \<and> partname dev' = pn
     \<and> path dev' = take 63 (''/dev/block/'' @ devname dev')"
proof -
  from block_scan_miss [OF pre, of e dev0] obtain d1 where
    d1: "block_scan e fs pn dev0 pre = Inr (False, d1)"
      "major d1 = (case last_long e ''MAJOR'' (scanned_lines fs pre) of None \<Rightarrow> major dev0 | Some v \<Rightarrow> v)"
      "minor d1 = (case last_long e ''MINOR'' (scanned_lines fs pre) of None \<Rightarrow> minor dev0 | Some v \<Rightarrow> v)"
      "devname d1 = (case last_word ''DEVNAME'' (scanned_lines fs pre) of None \<Rightarrow> devname dev0 | Some w \<Rightarrow> w)"
    by blast
  from entry_ok_read [OF ok]
  have rb: "read_buf 1024 (file_content fs (uevent_path d_name)) = Inr (entry_text fs d_name)"
    and fit: "list_all line_fits (uevent_lines (entry_text fs d_name))"
    by auto
  from parse_device_total [OF fit, of e d1]
  obtain d2 where d2: "parse_device e d1 (entry_text fs d_name) = Inr d2" ..
  note f = parse_device_fields [OF d2]
  define dev' where "dev' = d2\<lparr>path := take 63 (''/dev/block/'' @ devname d2)\<rparr>"
  have "block_scan e fs pn d1 (d_name # post) = Inr (True, dev')"
    using nm rb d2 f match by (simp add: dev'_def)
  then have "block_scan e fs pn dev0 (pre @ d_name # post) = Inr (True, dev')"
    by (simp add: block_scan_append d1(1))
  then have r: "setup_block e dev0 pn fs =
       Inr (0, dev',
            mknod (mkdir (mkdir fs ''/dev'' mode_0755) ''/dev/block'' mode_0755) (path dev')
              (BlockDev mode_0600 (makedev e (major dev') (minor dev'))))"
    by (simp add: setup_block_def rd Let_def)
  have sl: "scanned_lines fs (pre @ [d_name])
      = scanned_lines fs pre @ uevent_lines (entry_text fs d_name)"
    using nm by (simp add: scanned_lines_def)
  have a: "major dev' = (case last_long e ''MAJOR'' (scanned_lines fs (pre @ [d_name])) of
                       None \<Rightarrow> major dev0 | Some v \<Rightarrow> v)"
    using f d1(2) by (simp add: dev'_def sl last_long_def last_some_append split: option.splits)
  have b: "minor dev' = (case last_long e ''MINOR'' (scanned_lines fs (pre @ [d_name])) of
                       None \<Rightarrow> minor dev0 | Some v \<Rightarrow> v)"
    using f d1(3) by (simp add: dev'_def sl last_long_def last_some_append split: option.splits)
  have c: "devname dev' = (case last_word ''DEVNAME'' (scanned_lines fs (pre @ [d_name])) of
                         None \<Rightarrow> devname dev0 | Some w \<Rightarrow> w)"
    using f d1(4) by (simp add: dev'_def sl last_word_def last_some_append split: option.splits)
  have d: "partname dev' = pn" using f match by (simp add: dev'_def)
  have p: "path dev' = take 63 (''/dev/block/'' @ devname dev')" by (simp add: dev'_def)
  show ?thesis using r a b c d p by blast
qed

lemma setup_block_none:
  assumes rd: "readdir fs ''/sys/dev/block'' = Some entries"
    and all: "\<forall>x \<in> set entries. x = ''.'' \<or> x = ''..'' \<or>
                (entry_ok fs x \<and> partname_word (entry_text fs x) \<noteq> pn)"
  shows "\<exists>dev'. setup_block e dev0 pn fs = Inr (1, dev', fs)"
proof -
  from block_scan_miss [OF all, of e dev0] obtain d1 where
    "block_scan e fs pn dev0 entries = Inr (False, d1)" by blast
  then show ?thesis by (simp add: setup_block_def rd)
qed

lemma last_some_mem:
  "last_some f ls = Some y \<Longrightarrow> \<exists>l \<in> set ls. f l = Some y"
  by (induction ls) (auto split: option.splits)

lemma last_word_fits:
  assumes "list_all line_fits ls" and "last_word ''DEVNAME'' ls = Some w"
  shows "length w < 32"
proof -
  from last_some_mem [of "sscanf_s ''DEVNAME=''" ls w] assms(2)
  obtain l where "l \<in> set ls" "sscanf_s ''DEVNAME='' l = Some w"
    by (auto simp: last_word_def)
  then show ?thesis using assms(1) by (auto simp: list_all_iff line_fits_def)
qed

lemma last_long_append:
  "last_long e k (xs @ ys) = (case last_long e k ys of None \<Rightarrow> last_long e k xs | Some v \<Rightarrow> Some v)"
  by (simp add: last_long_def last_some_append split: option.splits)

lemma last_word_append:
  "last_word k (xs @ ys) = (case last_word k ys of None \<Rightarrow> last_word k xs | Some w \<Rightarrow> Some w)"
  by (simp add: last_word_def last_some_append split: option.splits)

lemma scanned_lines_snoc:
  "d_name \<noteq> ''.'' \<Longrightarrow> d_name \<noteq> ''..'' \<Longrightarrow>
     scanned_lines fs (pre @ [d_name]) = scanned_lines fs pre @ uevent_lines (entry_text fs d_name)"
  by (simp add: scanned_lines_def)

lemmas entry_eval = entry_ok_def entry_text_def line_fits_def uevent_lines_def partname_word_def
  last_word_def last_long_def scanned_lines_def

text \<open>
  Claim C6, as the code has it. \<open>readdir\<close> gives the entries in enumeration order. The
  partition name that \<open>setup_block\<close> compares is the word that \<open>%s\<close> takes from the entry's
  \<open>PARTNAME\<close> line: the field up to its first white space (the last such line, if there
  are several; the empty string, if there is none). Let every entry before \<open>d_name\<close> be
  \<open>.\<close>, \<open>..\<close> or a readable entry with another word, let \<open>d_name\<close> be readable with the
  requested word, and let its text have \<open>MAJOR\<close>, \<open>MINOR\<close> and \<open>DEVNAME\<close> lines, from which
  \<open>%ld\<close> stores \<open>M\<close> and \<open>m\<close> and \<open>%s\<close> takes \<open>dn\<close>. Then \<open>setup_block\<close> returns 0 with the
  struct holding that entry's values and the path \<open>/dev/block/dn\<close>, after \<open>mkdir /dev\<close>,
  \<open>mkdir /dev/block\<close> and \<open>mknod\<close> of a block device \<open>makedev(M, m)\<close> at that path; where
  the name is free in an existing directory, the node is there afterwards. When no entry
  has the requested word, \<open>setup_block\<close> returns 1 and the file system is the one it
  started with.
\<close>

theorem setup_block_first_match:
  "(\<forall>fs pn dev0 pre d_name post M m dn.
       readdir fs ''/sys/dev/block'' = Some (pre @ d_name # post)
     \<and> (\<forall>x \<in> set pre. x = ''.'' \<or> x = ''..'' \<or>
           (entry_ok fs x \<and> partname_word (entry_text fs x) \<noteq> pn))
     \<and> d_name \<noteq> ''.'' \<and> d_name \<noteq> ''..'' \<and> entry_ok fs d_name
     \<and> partname_word (entry_text fs d_name) = pn
     \<and> last_long e ''MAJOR'' (uevent_lines (entry_text fs d_name)) = Some M
     \<and> last_long e ''MINOR'' (uevent_lines (entry_text fs d_name)) = Some m
     \<and> last_word ''DEVNAME'' (uevent_lines (entry_text fs d_name)) = Some dn
     \<longrightarrow> setup_block e dev0 pn fs =
           Inr (0, \<lparr>major = M, minor = m, devname = dn, partname = pn,
                    path = ''/dev/block/'' @ dn\<rparr>,
                mknod (mkdir (mkdir fs ''/dev'' mode_0755) ''/dev/block'' mode_0755)
                  (''/dev/block/'' @ dn) (BlockDev mode_0600 (makedev e M m)))
         \<and> (can_create (mkdir (mkdir fs ''/dev'' mode_0755) ''/dev/block'' mode_0755)
                (''/dev/block/'' @ dn)
             \<longrightarrow> lookup (mknod (mkdir (mkdir fs ''/dev'' mode_0755) ''/dev/block'' mode_0755)
                            (''/dev/block/'' @ dn) (BlockDev mode_0600 (makedev e M m)))
                    (''/dev/block/'' @ dn) = Some (BlockDev mode_0600 (makedev e M m))))
   \<and> (\<forall>fs pn dev0 entries.
       readdir fs ''/sys/dev/block'' = Some entries
     \<and> (\<forall>x \<in> set entries. x = ''.'' \<or> x = ''..'' \<or>
           (entry_ok fs x \<and> partname_word (entry_text fs x) \<noteq> pn))
     \<longrightarrow> (\<exists>dev'. setup_block e dev0 pn fs = Inr (1, dev', fs)))"
proof (intro conjI allI impI; (elim conjE)?)
  fix fs pn dev0 pre d_name post M m dn
  assume rd: "readdir fs ''/sys/dev/block'' = Some (pre @ d_name # post)"
    and pre: "\<forall>x \<in> set pre. x = ''.'' \<or> x = ''..'' \<or>
           (entry_ok fs x \<and> partname_word (entry_text fs x) \<noteq> pn)"
    and nm: "d_name \<noteq> ''.''" "d_name \<noteq> ''..''"
    and ok: "entry_ok fs d_name"
    and match: "partname_word (entry_text fs d_name) = pn"
    and own: "last_long e ''MAJOR'' (uevent_lines (entry_text fs d_name)) = Some M"
      "last_long e ''MINOR'' (uevent_lines (entry_text fs d_name)) = Some m"
      "last_word ''DEVNAME'' (uevent_lines (entry_text fs d_name)) = Some dn"
  from setup_block_found [OF rd pre nm ok match, of e dev0] obtain dev' where
    r: "setup_block e dev0 pn fs =
       Inr (0, dev',
            mknod (mkdir (mkdir fs ''/dev'' mode_0755) ''/dev/block'' mode_0755) (path dev')
              (BlockDev mode_0600 (makedev e (major dev') (minor dev'))))"
    and f: "major dev' = (case last_long e ''MAJOR'' (scanned_lines fs (pre @ [d_name])) of
                       None \<Rightarrow> major dev0 | Some v \<Rightarrow> v)"
      "minor dev' = (case last_long e ''MINOR'' (scanned_lines fs (pre @ [d_name])) of
                       None \<Rightarrow> minor dev0 | Some v \<Rightarrow> v)"
      "devname dev' = (case last_word ''DEVNAME'' (scanned_lines fs (pre @ [d_name])) of
                         None \<Rightarrow> devname dev0 | Some w \<Rightarrow> w)"
      "partname dev' = pn"
      "path dev' = take 63 (''/dev/block/'' @ devname dev')"
    by blast
  have g: "major dev' = M" "minor dev' = m" "devname dev' = dn"
    using f(1-3) own
    by (simp_all add: scanned_lines_snoc [OF nm] last_long_append last_word_append)
  have "length dn < 32"
    using last_word_fits [OF _ own(3)] entry_ok_read [OF ok] by blast
  then have p: "path dev' = ''/dev/block/'' @ dn" using f(5) g(3) by simp
  have "dev' = \<lparr>major = M, minor = m, devname = dn, partname = pn, path = ''/dev/block/'' @ dn\<rparr>"
    using g f(4) p by (cases dev') simp
  then show "setup_block e dev0 pn fs =
           Inr (0, \<lparr>major = M, minor = m, devname = dn, partname = pn,
                    path = ''/dev/block/'' @ dn\<rparr>,
                mknod (mkdir (mkdir fs ''/dev'' mode_0755) ''/dev/block'' mode_0755)
                  (''/dev/block/'' @ dn) (BlockDev mode_0600 (makedev e M m)))"
    using r by simp
next
  fix fs :: fsys and dn :: string and M m :: int
  assume "can_create (mkdir (mkdir fs ''/dev'' mode_0755) ''/dev/block'' mode_0755)
                (''/dev/block/'' @ dn)"
  then show "lookup (mknod (mkdir (mkdir fs ''/dev'' mode_0755) ''/dev/block'' mode_0755)
                            (''/dev/block/'' @ dn) (BlockDev mode_0600 (makedev e M m)))
                    (''/dev/block/'' @ dn) = Some (BlockDev mode_0600 (makedev e M m))"
    by (rule lookup_mknod)
next
  fix fs pn dev0 entries
  assume "readdir fs ''/sys/dev/block'' = Some entries"
    and "\<forall>x \<in> set entries. x = ''.'' \<or> x = ''..'' \<or>
           (entry_ok fs x \<and> partname_word (entry_text fs x) \<noteq> pn)"
  then show "\<exists>dev'. setup_block e dev0 pn fs = Inr (1, dev', fs)"
    by (rule setup_block_none)
qed

theorem setup_block_first_match_witness:
  "setup_block example_env device_zero ''SYSTEM_a'' fs_block =
     Inr (0, \<lparr>major = 8, minor = 1, devname = ''sda1'', partname = ''SYSTEM_a'',
              path = ''/dev/block/sda1''\<rparr>,
          mknod (mkdir (mkdir fs_block ''/dev'' mode_0755) ''/dev/block'' mode_0755)
            ''/dev/block/sda1'' (BlockDev mode_0600 2049))
   \<and> lookup (mknod (mkdir (mkdir fs_block ''/dev'' mode_0755) ''/dev/block'' mode_0755)
              ''/dev/block/sda1'' (BlockDev mode_0600 2049)) ''/dev/block/sda1''
       = Some (BlockDev mode_0600 2049)
   \<and> lookup fs_block ''/dev/block/sda1'' = None
   \<and> (\<exists>dev'. setup_block example_env device_zero ''BOOT_a'' fs_block = Inr (1, dev', fs_block))"
proof -
  have rd: "readdir fs_block ''/sys/dev/block'' = Some ([''.'', ''..'', ''8:0''] @ ''8:1'' # [''8:2''])"
    by (simp add: fs_block_def fs_eval)
  have found:
      "readdir fs_block ''/sys/dev/block'' = Some ([''.'', ''..'', ''8:0''] @ ''8:1'' # [''8:2''])
     \<and> (\<forall>x \<in> set [''.'', ''..'', ''8:0'']. x = ''.'' \<or> x = ''..'' \<or>
           (entry_ok fs_block x \<and> partname_word (entry_text fs_block x) \<noteq> ''SYSTEM_a''))
     \<and> ''8:1'' \<noteq> ''.'' \<and> ''8:1'' \<noteq> ''..'' \<and> entry_ok fs_block ''8:1''
     \<and> partname_word (entry_text fs_block ''8:1'') = ''SYSTEM_a''
     \<and> last_long example_env ''MAJOR'' (uevent_lines (entry_text fs_block ''8:1'')) = Some 8
     \<and> last_long example_env ''MINOR'' (uevent_lines (entry_text fs_block ''8:1'')) = Some 1
     \<and> last_word ''DEVNAME'' (uevent_lines (entry_text fs_block ''8:1'')) = Some ''sda1''"
    using rd by (simp add: fs_block_def fs_eval dev_eval entry_eval example_env_fields)
  have missing:
      "readdir fs_block ''/sys/dev/block'' = Some [''.'', ''..'', ''8:0'', ''8:1'', ''8:2'']
     \<and> (\<forall>x \<in> set [''.'', ''..'', ''8:0'', ''8:1'', ''8:2'']. x = ''.'' \<or> x = ''..'' \<or>
           (entry_ok fs_block x \<and> partname_word (entry_text fs_block x) \<noteq> ''BOOT_a''))"
    using rd by (simp add: fs_block_def fs_eval dev_eval entry_eval)
  have cc: "can_create (mkdir (mkdir fs_block ''/dev'' mode_0755) ''/dev/block'' mode_0755)
                (''/dev/block/'' @ ''sda1'')"
    by (simp add: fs_block_def fs_eval)
  have none: "lookup fs_block ''/dev/block/sda1'' = None"
    by (simp add: fs_block_def fs_eval)
  have mk: "makedev example_env 8 1 = 2049"
    by (simp add: example_env_fields)
  from setup_block_first_match [where e = example_env, THEN conjunct1, rule_format, OF found,
      of device_zero]
    setup_block_first_match [where e = example_env, THEN conjunct2, rule_format, OF missing,
      of device_zero]
    cc none mk
  show ?thesis by simp
qed

text \<open>
  Claim C6 as stated fails for a field that goes on behind the name: the first entry's
  \<open>PARTNAME\<close> field is \<open>SYSTEM_a backup\<close>, which is not the requested \<open>SYSTEM_a\<close> byte for
  byte, and the second entry's field is. \<open>setup_block\<close> stops at the first entry and makes
  \<open>/dev/block/sda1\<close>; no node is made for the second.
\<close>

theorem setup_block_field_word_counterexample:
  "file_content fs_block_words ''/sys/dev/block/8:1/uevent''
     = Some ''MAJOR=8\<newline>MINOR=1\<newline>DEVNAME=sda1\<newline>PARTNAME=SYSTEM_a backup\<newline>''
   \<and> file_content fs_block_words ''/sys/dev/block/8:2/uevent''
     = Some ''MAJOR=8\<newline>MINOR=2\<newline>DEVNAME=sda2\<newline>PARTNAME=SYSTEM_a\<newline>''
   \<and> readdir fs_block_words ''/sys/dev/block'' = Some [''.'', ''..'', ''8:1'', ''8:2'']
   \<and> (case setup_block example_env device_zero ''SYSTEM_a'' fs_block_words of
         Inl x \<Rightarrow> None
       | Inr (status, dev, fs') \<Rightarrow>
           Some (status, devname dev, partname dev, lookup fs' ''/dev/block/sda1'',
                 lookup fs' ''/dev/block/sda2''))
       = Some (0, ''sda1'', ''SYSTEM_a'', Some (BlockDev mode_0600 2049), None)"
  by (simp add: fs_block_words_def fs_eval dev_eval setup_block_def device_zero_def
      example_env_fields mode_0755_def mode_0600_def)

text \<open>
  Claim C10. Let the scan reach entry \<open>d_name\<close> without a match before it, and let
  \<open>d_name\<close> match. Then \<open>setup_block\<close> builds the path and the device node from three
  values each of which is found on its own: the entry's own, when its text has a line
  for the field; otherwise the value of the last line for that field in the entries
  scanned before; otherwise what the struct held at the call. So an entry without a
  \<open>MINOR\<close> line gets the minor number of an earlier entry next to its own major number
  and device name. The last conjunct is \<open>parse_device\<close> itself: the partition name is
  set from the text alone (empty without a \<open>PARTNAME\<close> line), and each of the other three
  fields keeps the incoming value when the text has no line for it.
\<close>

theorem stale_device_fields:
  assumes "readdir fs ''/sys/dev/block'' = Some (pre @ d_name # post)"
    and "\<forall>x \<in> set pre. x = ''.'' \<or> x = ''..'' \<or>
           (entry_ok fs x \<and> partname_word (entry_text fs x) \<noteq> pn)"
    and "d_name \<noteq> ''.''" and "d_name \<noteq> ''..''" and "entry_ok fs d_name"
    and "partname_word (entry_text fs d_name) = pn"
  shows "\<exists>dev'. setup_block e dev0 pn fs =
         Inr (0, dev',
              mknod (mkdir (mkdir fs ''/dev'' mode_0755) ''/dev/block'' mode_0755) (path dev')
                (BlockDev mode_0600 (makedev e (major dev') (minor dev'))))
     \<and> path dev' = take 63 (''/dev/block/'' @ devname dev')
     \<and> major dev' =
         (case last_long e ''MAJOR'' (uevent_lines (entry_text fs d_name)) of
            Some v \<Rightarrow> v
          | None \<Rightarrow> (case last_long e ''MAJOR'' (scanned_lines fs pre) of
                       Some v \<Rightarrow> v | None \<Rightarrow> major dev0))
     \<and> minor dev' =
         (case last_long e ''MINOR'' (uevent_lines (entry_text fs d_name)) of
            Some v \<Rightarrow> v
          | None \<Rightarrow> (case last_long e ''MINOR'' (scanned_lines fs pre) of
                       Some v \<Rightarrow> v | None \<Rightarrow> minor dev0))
     \<and> devname dev' =
         (case last_word ''DEVNAME'' (uevent_lines (entry_text fs d_name)) of
            Some w \<Rightarrow> w
          | None \<Rightarrow> (case last_word ''DEVNAME'' (scanned_lines fs pre) of
                       Some w \<Rightarrow> w | None \<Rightarrow> devname dev0))
     \<and> (\<forall>dev text d. parse_device e dev text = Inr d \<longrightarrow>
           partname d = partname_word text
         \<and> major d = (case last_long e ''MAJOR'' (uevent_lines text) of
                        Some v \<Rightarrow> v | None \<Rightarrow> major dev)
         \<and> minor d = (case last_long e ''MINOR'' (uevent_lines text) of
                        Some v \<Rightarrow> v | None \<Rightarrow> minor dev)
         \<and> devname d = (case last_word ''DEVNAME'' (uevent_lines text) of
                          Some w \<Rightarrow> w | None \<Rightarrow> devname dev))"
proof -
  from setup_block_found [OF assms, of e dev0] obtain dev' where
    r: "setup_block e dev0 pn fs =
       Inr (0, dev',
            mknod (mkdir (mkdir fs ''/dev'' mode_0755) ''/dev/block'' mode_0755) (path dev')
              (BlockDev mode_0600 (makedev e (major dev') (minor dev'))))"
    and f: "major dev' = (case last_long e ''MAJOR'' (scanned_lines fs (pre @ [d_name])) of
                       None \<Rightarrow> major dev0 | Some v \<Rightarrow> v)"
      "minor dev' = (case last_long e ''MINOR'' (scanned_lines fs (pre @ [d_name])) of
                       None \<Rightarrow> minor dev0 | Some v \<Rightarrow> v)"
      "devname dev' = (case last_word ''DEVNAME'' (scanned_lines fs (pre @ [d_name])) of
                         None \<Rightarrow> devname dev0 | Some w \<Rightarrow> w)"
      "path dev' = take 63 (''/dev/block/'' @ devname dev')"
    by blast
  have a: "major dev' =
         (case last_long e ''MAJOR'' (uevent_lines (entry_text fs d_name)) of
            Some v \<Rightarrow> v
          | None \<Rightarrow> (case last_long e ''MAJOR'' (scanned_lines fs pre) of
                       Some v \<Rightarrow> v | None \<Rightarrow> major dev0))"
    using f(1) by (simp add: scanned_lines_snoc [OF assms(3,4)] last_long_append split: option.splits)
  have b: "minor dev' =
         (case last_long e ''MINOR'' (uevent_lines (entry_text fs d_name)) of
            Some v \<Rightarrow> v
          | None \<Rightarrow> (case last_long e ''MINOR'' (scanned_lines fs pre) of
                       Some v \<Rightarrow> v | None \<Rightarrow> minor dev0))"
    using f(2) by (simp add: scanned_lines_snoc [OF assms(3,4)] last_long_append split: option.splits)
  have c: "devname dev' =
         (case last_word ''DEVNAME'' (uevent_lines (entry_text fs d_name)) of
            Some w \<Rightarrow> w
          | None \<Rightarrow> (case last_word ''DEVNAME'' (scanned_lines fs pre) of
                       Some w \<Rightarrow> w | None \<Rightarrow> devname dev0))"
    using f(3) by (simp add: scanned_lines_snoc [OF assms(3,4)] last_word_append split: option.splits)
  have d: "\<forall>dev text d. parse_device e dev text = Inr d \<longrightarrow>
           partname d = partname_word text
         \<and> major d = (case last_long e ''MAJOR'' (uevent_lines text) of
                        Some v \<Rightarrow> v | None \<Rightarrow> major dev)
         \<and> minor d = (case last_long e ''MINOR'' (uevent_lines text) of
                        Some v \<Rightarrow> v | None \<Rightarrow> minor dev)
         \<and> devname d = (case last_word ''DEVNAME'' (uevent_lines text) of
                          Some w \<Rightarrow> w | None \<Rightarrow> devname dev)"
  proof (intro allI impI)
    fix dv tx dv'
    assume "parse_device e dv tx = Inr dv'"
    from parse_device_fields [OF this]
    show "partname dv' = partname_word tx
         \<and> major dv' = (case last_long e ''MAJOR'' (uevent_lines tx) of
                        Some v \<Rightarrow> v | None \<Rightarrow> major dv)
         \<and> minor dv' = (case last_long e ''MINOR'' (uevent_lines tx) of
                        Some v \<Rightarrow> v | None \<Rightarrow> minor dv)
         \<and> devname dv' = (case last_word ''DEVNAME'' (uevent_lines tx) of
                          Some w \<Rightarrow> w | None \<Rightarrow> devname dv)"
      by (simp split: option.splits)
  qed
  show ?thesis using r f(4) a b c d by (intro exI [of _ dev'] conjI)
qed

theorem stale_device_fields_witness:
  "(\<exists>dev'. setup_block example_env device_zero ''SYSTEM_a'' fs_block_stale =
       Inr (0, dev',
            mknod (mkdir (mkdir fs_block_stale ''/dev'' mode_0755) ''/dev/block'' mode_0755)
              ''/dev/block/sda1'' (BlockDev mode_0600 (makedev example_env 259 16)))
      \<and> major dev' = 259 \<and> minor dev' = 16 \<and> devname dev' = ''sda1'')
   \<and> (\<exists>dev'. setup_block example_env device_zero ''VENDOR_a'' fs_block_stale =
       Inr (0, dev',
            mknod (mkdir (mkdir fs_block_stale ''/dev'' mode_0755) ''/dev/block'' mode_0755)
              ''/dev/block/sda1'' (BlockDev mode_0600 (makedev example_env 259 16)))
      \<and> major dev' = 259 \<and> minor dev' = 16 \<and> devname dev' = ''sda1'')
   \<and> file_content fs_block_stale ''/sys/dev/block/8:16/uevent''
       = Some ''MAJOR=8\<newline>MINOR=16\<newline>DEVNAME=sdb\<newline>DEVTYPE=disk\<newline>''
   \<and> file_content fs_block_stale ''/sys/dev/block/259:1/uevent''
       = Some ''MAJOR=259\<newline>DEVNAME=sda1\<newline>PARTNAME=SYSTEM_a\<newline>''
   \<and> file_content fs_block_stale ''/sys/dev/block/259:2/uevent'' = Some ''PARTNAME=VENDOR_a\<newline>''"
proof -
  have rd1: "readdir fs_block_stale ''/sys/dev/block'' = Some ([''.'', ''..'', ''8:16''] @ ''259:1'' # [''259:2''])"
    by (simp add: fs_block_stale_def fs_eval)
  have rd2: "readdir fs_block_stale ''/sys/dev/block'' = Some ([''.'', ''..'', ''8:16'', ''259:1''] @ ''259:2'' # [])"
    by (simp add: fs_block_stale_def fs_eval)
  have ok: "entry_ok fs_block_stale ''8:16''" "entry_ok fs_block_stale ''259:1''"
    "entry_ok fs_block_stale ''259:2''"
    by (simp_all add: fs_block_stale_def fs_eval dev_eval entry_eval)
  have pw: "partname_word (entry_text fs_block_stale ''8:16'') = []"
    "partname_word (entry_text fs_block_stale ''259:1'') = ''SYSTEM_a''"
    "partname_word (entry_text fs_block_stale ''259:2'') = ''VENDOR_a''"
    by (simp_all add: fs_block_stale_def fs_eval dev_eval entry_eval)
  have ev: "last_long example_env ''MAJOR'' (uevent_lines (entry_text fs_block_stale ''259:1'')) = Some 259"
    "last_long example_env ''MINOR'' (uevent_lines (entry_text fs_block_stale ''259:1'')) = None"
    "last_word ''DEVNAME'' (uevent_lines (entry_text fs_block_stale ''259:1'')) = Some ''sda1''"
    "last_long example_env ''MINOR'' (scanned_lines fs_block_stale [''.'', ''..'', ''8:16'']) = Some 16"
    "last_long example_env ''MAJOR'' (uevent_lines (entry_text fs_block_stale ''259:2'')) = None"
    "last_long example_env ''MINOR'' (uevent_lines (entry_text fs_block_stale ''259:2'')) = None"
    "last_word ''DEVNAME'' (uevent_lines (entry_text fs_block_stale ''259:2'')) = None"
    "last_long example_env ''MAJOR'' (scanned_lines fs_block_stale [''.'', ''..'', ''8:16'', ''259:1'']) = Some 259"
    "last_long example_env ''MINOR'' (scanned_lines fs_block_stale [''.'', ''..'', ''8:16'', ''259:1'']) = Some 16"
    "last_word ''DEVNAME'' (scanned_lines fs_block_stale [''.'', ''..'', ''8:16'', ''259:1'']) = Some ''sda1''"
    by (simp_all add: fs_block_stale_def fs_eval dev_eval entry_eval example_env_fields)
  have p1: "\<forall>x \<in> set [''.'', ''..'', ''8:16'']. x = ''.'' \<or> x = ''..'' \<or>
           (entry_ok fs_block_stale x \<and> partname_word (entry_text fs_block_stale x) \<noteq> ''SYSTEM_a'')"
    using ok pw by simp
  have p2: "\<forall>x \<in> set [''.'', ''..'', ''8:16'', ''259:1'']. x = ''.'' \<or> x = ''..'' \<or>
           (entry_ok fs_block_stale x \<and> partname_word (entry_text fs_block_stale x) \<noteq> ''VENDOR_a'')"
    using ok pw by simp
  from stale_device_fields [OF rd1 p1 _ _ ok(2) pw(2), of example_env device_zero]
  have a: "\<exists>dev'. setup_block example_env device_zero ''SYSTEM_a'' fs_block_stale =
       Inr (0, dev',
            mknod (mkdir (mkdir fs_block_stale ''/dev'' mode_0755) ''/dev/block'' mode_0755)
              ''/dev/block/sda1'' (BlockDev mode_0600 (makedev example_env 259 16)))
      \<and> major dev' = 259 \<and> minor dev' = 16 \<and> devname dev' = ''sda1''"
    unfolding ev by auto
  from stale_device_fields [OF rd2 p2 _ _ ok(3) pw(3), of example_env device_zero]
  have b: "\<exists>dev'. setup_block example_env device_zero ''VENDOR_a'' fs_block_stale =
       Inr (0, dev',
            mknod (mkdir (mkdir fs_block_stale ''/dev'' mode_0755) ''/dev/block'' mode_0755)
              ''/dev/block/sda1'' (BlockDev mode_0600 (makedev example_env 259 16)))
      \<and> major dev' = 259 \<and> minor dev' = 16 \<and> devname dev' = ''sda1''"
    unfolding ev by auto
  have c: "file_content fs_block_stale ''/sys/dev/block/8:16/uevent''
       = Some ''MAJOR=8\<newline>MINOR=16\<newline>DEVNAME=sdb\<newline>DEVTYPE=disk\<newline>''"
    "file_content fs_block_stale ''/sys/dev/block/259:1/uevent''
       = Some ''MAJOR=259\<newline>DEVNAME=sda1\<newline>PARTNAME=SYSTEM_a\<newline>''"
    "file_content fs_block_stale ''/sys/dev/block/259:2/uevent'' = Some ''PARTNAME=VENDOR_a\<newline>''"
    by (simp_all add: fs_block_stale_def fs_eval)
  from a b c show ?thesis by (intro conjI)
qed
section \<open>Properties of the populate phase\<close>

lemma relink_backup:
  assumes "is_dir fs ''/''" and "ino_of fs ''/.backup/init'' = Some i"
    and "\<not> is_dir fs ''/.backup/init''" and "\<not> is_dir fs ''/init''"
  shows "ino_of (link (unlink fs ''/init'') ''/.backup/init'' ''/init'') ''/init'' = Some i"
proof -
  define fs1 where "fs1 = unlink fs ''/init''"
  have a: "ino_of fs1 ''/init'' = None"
    unfolding fs1_def using assms(4) by (rule ino_of_unlink_self)
  have b: "ino_of fs1 ''/.backup/init'' = Some i"
    unfolding fs1_def using assms(2) by (simp add: ino_of_unlink_other)
  have c: "\<not> is_dir fs1 ''/.backup/init''"
    unfolding fs1_def using assms(3) by (simp add: is_dir_unlink_other)
  have d: "is_dir fs1 ''/''"
    unfolding fs1_def using assms(1) by (simp add: is_dir_unlink_other)
  have e: "dirname ''/init'' = ''/''" by (simp add: dirname_def)
  show ?thesis
    unfolding fs1_def [symmetric]
    using a b c d e by (simp add: link_def can_create_def ino_of_def map_add_def)
qed

lemma main_initialize_skip:
  "skip_initramfs cmd \<noteq> 0 \<Longrightarrow>
     main_initialize e cmd w
       = Inr (call e (FrmRf ''/'' [''overlay'', ''.backup'', ''init.bak''])
                (w\<lparr>excl_list := [''overlay'', ''.backup'', ''init.bak'']\<rparr>))"
  by (simp add: main_initialize_def)

lemma main_initialize_archive:
  assumes "skip_initramfs cmd = 0" and "file_content (filesys w) ''/ramdisk.cpio.xz'' = Some addr"
  shows "\<exists>w'. main_initialize e cmd w = Inr w'
            \<and> trace w' = trace w @ [ParseCpio ''/ramdisk.cpio'',
                                     FrmRf ''/'' [''overlay'', ''.backup''], CpioExtractAll]
            \<and> excl_list w' = [''overlay'', ''.backup'']
            \<and> filesys w' =
                 effect e CpioExtractAll
                   (effect e (FrmRf ''/'' [''overlay'', ''.backup''])
                     (effect e (ParseCpio ''/ramdisk.cpio'')
                       (snd (unxz e addr (fst (creat (filesys w) ''/ramdisk.cpio'' mode_0))
                              (snd (creat (filesys w) ''/ramdisk.cpio'' mode_0))))))"
proof -
  have ac: "access (filesys w) ''/ramdisk.cpio.xz''"
    using assms(2) by (auto simp: access_def file_content_def split: option.splits)
  show ?thesis
    using assms ac
    by (simp add: main_initialize_def mmap_file_def Let_def call_def split: prod.splits)
qed

text \<open>
  Claim C2, as the code has it. The block under "Initialize" takes one of three ways.
  With \<open>skip_initramfs\<close> set, the root is wiped by \<open>frm_rf\<close> under the exclusion list
  \<open>overlay\<close>, \<open>.backup\<close>, \<open>init.bak\<close>. Otherwise, with \<open>/ramdisk.cpio.xz\<close> readable, the archive
  is decompressed to \<open>/ramdisk.cpio\<close> and parsed, the root is wiped under the shorter list
  \<open>overlay\<close>, \<open>.backup\<close>, and the archive is extracted. Otherwise \<open>/init\<close> is unlinked and
  \<open>/.backup/init\<close> is linked in its place: in a root that holds the backup, \<open>/init\<close> then
  names the backup's inode. Only the first two ways call an external helper, and their
  events differ, so the three ways exclude each other.
\<close>

theorem main_initialize_three_paths:
  "(skip_initramfs cmd \<noteq> 0 \<longrightarrow>
      main_initialize e cmd w
        = Inr (call e (FrmRf ''/'' [''overlay'', ''.backup'', ''init.bak''])
                 (w\<lparr>excl_list := [''overlay'', ''.backup'', ''init.bak'']\<rparr>)))
   \<and> (skip_initramfs cmd = 0 \<and> file_content (filesys w) ''/ramdisk.cpio.xz'' = Some addr \<longrightarrow>
        access (filesys w) ''/ramdisk.cpio.xz''
      \<and> (\<exists>w'. main_initialize e cmd w = Inr w'
            \<and> trace w' = trace w @ [ParseCpio ''/ramdisk.cpio'',
                                     FrmRf ''/'' [''overlay'', ''.backup''], CpioExtractAll]
            \<and> excl_list w' = [''overlay'', ''.backup'']
            \<and> filesys w' =
                 effect e CpioExtractAll
                   (effect e (FrmRf ''/'' [''overlay'', ''.backup''])
                     (effect e (ParseCpio ''/ramdisk.cpio'')
                       (snd (unxz e addr (fst (creat (filesys w) ''/ramdisk.cpio'' mode_0))
                              (snd (creat (filesys w) ''/ramdisk.cpio'' mode_0))))))))
   \<and> (skip_initramfs cmd = 0 \<and> \<not> access (filesys w) ''/ramdisk.cpio.xz'' \<longrightarrow>
        main_initialize e cmd w
          = Inr (w\<lparr>filesys := link (unlink (filesys w) ''/init'') ''/.backup/init'' ''/init''\<rparr>))
   \<and> (\<forall>i. is_dir (filesys w) ''/'' \<and> ino_of (filesys w) ''/.backup/init'' = Some i
          \<and> \<not> is_dir (filesys w) ''/.backup/init'' \<and> \<not> is_dir (filesys w) ''/init''
        \<longrightarrow> ino_of (link (unlink (filesys w) ''/init'') ''/.backup/init'' ''/init'') ''/init''
              = Some i)"
proof (intro conjI impI allI)
  assume "skip_initramfs cmd \<noteq> 0"
  then show "main_initialize e cmd w
        = Inr (call e (FrmRf ''/'' [''overlay'', ''.backup'', ''init.bak''])
                 (w\<lparr>excl_list := [''overlay'', ''.backup'', ''init.bak'']\<rparr>))"
    by (simp add: main_initialize_def)
next
  assume h: "skip_initramfs cmd = 0 \<and> file_content (filesys w) ''/ramdisk.cpio.xz'' = Some addr"
  then show "access (filesys w) ''/ramdisk.cpio.xz''"
    by (auto simp: access_def file_content_def split: option.splits)
next
  assume h: "skip_initramfs cmd = 0 \<and> file_content (filesys w) ''/ramdisk.cpio.xz'' = Some addr"
  then have ac: "access (filesys w) ''/ramdisk.cpio.xz''"
    by (auto simp: access_def file_content_def split: option.splits)
  show "\<exists>w'. main_initialize e cmd w = Inr w'
            \<and> trace w' = trace w @ [ParseCpio ''/ramdisk.cpio'',
                                     FrmRf ''/'' [''overlay'', ''.backup''], CpioExtractAll]
            \<and> excl_list w' = [''overlay'', ''.backup'']
            \<and> filesys w' =
                 effect e CpioExtractAll
                   (effect e (FrmRf ''/'' [''overlay'', ''.backup''])
                     (effect e (ParseCpio ''/ramdisk.cpio'')
                       (snd (unxz e addr (fst (creat (filesys w) ''/ramdisk.cpio'' mode_0))
                              (snd (creat (filesys w) ''/ramdisk.cpio'' mode_0))))))"
    using h ac
    by (simp add: main_initialize_def mmap_file_def Let_def call_def split: prod.splits)
next
  assume "skip_initramfs cmd = 0 \<and> \<not> access (filesys w) ''/ramdisk.cpio.xz''"
  then show "main_initialize e cmd w
          = Inr (w\<lparr>filesys := link (unlink (filesys w) ''/init'') ''/.backup/init'' ''/init''\<rparr>)"
    by (simp add: main_initialize_def)
next
  fix i
  assume "is_dir (filesys w) ''/'' \<and> ino_of (filesys w) ''/.backup/init'' = Some i
          \<and> \<not> is_dir (filesys w) ''/.backup/init'' \<and> \<not> is_dir (filesys w) ''/init''"
  then show "ino_of (link (unlink (filesys w) ''/init'') ''/.backup/init'' ''/init'') ''/init''
              = Some i"
    using relink_backup [of "filesys w" i] by blast
qed

theorem main_initialize_three_paths_witness:
  "main_initialize example_env \<lparr>skip_initramfs = 1, slot = [NUL, NUL, NUL]\<rparr> (world_of fs_ramdisk)
     = Inr (call example_env (FrmRf ''/'' [''overlay'', ''.backup'', ''init.bak''])
              ((world_of fs_ramdisk)\<lparr>excl_list := [''overlay'', ''.backup'', ''init.bak'']\<rparr>))
   \<and> (\<exists>w'. main_initialize example_env \<lparr>skip_initramfs = 0, slot = [NUL, NUL, NUL]\<rparr>
              (world_of fs_ramdisk) = Inr w'
          \<and> trace w' = [ParseCpio ''/ramdisk.cpio'', FrmRf ''/'' [''overlay'', ''.backup''],
                         CpioExtractAll]
          \<and> excl_list w' = [''overlay'', ''.backup''])
   \<and> main_initialize example_env \<lparr>skip_initramfs = 0, slot = [NUL, NUL, NUL]\<rparr> (world_of fs_backup)
       = Inr ((world_of fs_backup)\<lparr>filesys :=
                link (unlink fs_backup ''/init'') ''/.backup/init'' ''/init''\<rparr>)
   \<and> ino_of fs_backup ''/init'' = Some 1
   \<and> ino_of (link (unlink fs_backup ''/init'') ''/.backup/init'' ''/init'') ''/init'' = Some 3"
proof -
  let ?c1 = "\<lparr>skip_initramfs = 1, slot = [NUL, NUL, NUL]\<rparr>"
  let ?c0 = "\<lparr>skip_initramfs = 0, slot = [NUL, NUL, NUL]\<rparr>"
  have a: "skip_initramfs ?c1 \<noteq> 0" by simp
  have b: "skip_initramfs ?c0 = 0 \<and> file_content (filesys (world_of fs_ramdisk)) ''/ramdisk.cpio.xz''
             = Some ''7zXZ''"
    by (simp add: world_of_def fs_ramdisk_def fs_eval)
  have c: "skip_initramfs ?c0 = 0 \<and> \<not> access (filesys (world_of fs_backup)) ''/ramdisk.cpio.xz''"
    by (simp add: world_of_def fs_backup_def fs_eval)
  have d: "is_dir (filesys (world_of fs_backup)) ''/''
         \<and> ino_of (filesys (world_of fs_backup)) ''/.backup/init'' = Some 3
         \<and> \<not> is_dir (filesys (world_of fs_backup)) ''/.backup/init''
         \<and> \<not> is_dir (filesys (world_of fs_backup)) ''/init''"
    by (simp add: world_of_def fs_backup_def fs_eval)
  have f: "filesys (world_of fs_backup) = fs_backup" "trace (world_of fs_ramdisk) = []"
    by (simp_all add: world_of_def)
  have g: "ino_of fs_backup ''/init'' = Some 1"
    by (simp add: fs_backup_def fs_eval)
  from main_initialize_three_paths [where cmd = ?c1 and e = example_env and w = "world_of fs_ramdisk",
        THEN conjunct1, rule_format, OF a]
    main_initialize_three_paths [where cmd = ?c0 and e = example_env and w = "world_of fs_ramdisk"
          and addr = "''7zXZ''",
        THEN conjunct2, THEN conjunct1, rule_format, OF b]
    main_initialize_three_paths [where cmd = ?c0 and e = example_env and w = "world_of fs_backup",
        THEN conjunct2, THEN conjunct2, THEN conjunct1, rule_format, OF c]
    main_initialize_three_paths [where cmd = ?c0 and e = example_env and w = "world_of fs_backup",
        THEN conjunct2, THEN conjunct2, THEN conjunct2, rule_format, OF d]
    g
  show ?thesis unfolding f by auto
qed

text \<open>
  Claim C2 as stated fails in one detail: the exclusion list of the archive way is not the
  larger one. It is the list of the \<open>skip_initramfs\<close> way without \<open>init.bak\<close>.
\<close>

theorem root_exclusion_sets_counterexample:
  "(case main_initialize example_env \<lparr>skip_initramfs = 1, slot = [NUL, NUL, NUL]\<rparr>
           (world_of fs_ramdisk) of Inl x \<Rightarrow> [] | Inr w' \<Rightarrow> trace w')
     = [FrmRf ''/'' [''overlay'', ''.backup'', ''init.bak'']]
   \<and> (case main_initialize example_env \<lparr>skip_initramfs = 0, slot = [NUL, NUL, NUL]\<rparr>
           (world_of fs_ramdisk) of Inl x \<Rightarrow> [] | Inr w' \<Rightarrow> trace w')
     = [ParseCpio ''/ramdisk.cpio'', FrmRf ''/'' [''overlay'', ''.backup''], CpioExtractAll]
   \<and> set [''overlay'', ''.backup''] \<subseteq> set [''overlay'', ''.backup'', ''init.bak'']
   \<and> ''init.bak'' \<notin> set [''overlay'', ''.backup'']"
proof (intro conjI)
  show "set [''overlay'', ''.backup''] \<subseteq> set [''overlay'', ''.backup'', ''init.bak'']"
    by simp
next
  show "''init.bak'' \<notin> set [''overlay'', ''.backup'']"
    by simp
next
  have "skip_initramfs \<lparr>skip_initramfs = 1, slot = [NUL, NUL, NUL]\<rparr> \<noteq> 0" by simp
  from main_initialize_skip [OF this, of example_env "world_of fs_ramdisk"]
  show "(case main_initialize example_env \<lparr>skip_initramfs = 1, slot = [NUL, NUL, NUL]\<rparr>
           (world_of fs_ramdisk) of Inl x \<Rightarrow> [] | Inr w' \<Rightarrow> trace w')
     = [FrmRf ''/'' [''overlay'', ''.backup'', ''init.bak'']]"
    by (simp add: call_def world_of_def)
next
  have a: "skip_initramfs \<lparr>skip_initramfs = 0, slot = [NUL, NUL, NUL]\<rparr> = 0" by simp
  have b: "file_content (filesys (world_of fs_ramdisk)) ''/ramdisk.cpio.xz'' = Some ''7zXZ''"
    by (simp add: world_of_def fs_ramdisk_def fs_eval)
  from main_initialize_archive [OF a b, of example_env] obtain w' where
    "main_initialize example_env \<lparr>skip_initramfs = 0, slot = [NUL, NUL, NUL]\<rparr>
       (world_of fs_ramdisk) = Inr w'"
    "trace w' = trace (world_of fs_ramdisk) @ [ParseCpio ''/ramdisk.cpio'',
                                     FrmRf ''/'' [''overlay'', ''.backup''], CpioExtractAll]"
    by blast
  then show "(case main_initialize example_env \<lparr>skip_initramfs = 0, slot = [NUL, NUL, NUL]\<rparr>
           (world_of fs_ramdisk) of Inl x \<Rightarrow> [] | Inr w' \<Rightarrow> trace w')
     = [ParseCpio ''/ramdisk.cpio'', FrmRf ''/'' [''overlay'', ''.backup''], CpioExtractAll]"
    by (simp add: world_of_def)
qed

section \<open>Properties of policy resolution\<close>








lemma patch_sepolicy_none:
  assumes "\<not> access (filesys w) ''/sepolicy''"
    and "\<not> access (filesys w) (SPLIT_PRECOMPILE e) \<or> verify_precompiled e (filesys w) = Inr False"
    and "\<not> access (filesys w) (SPLIT_PLAT_CIL e)"
  shows "patch_sepolicy e w = Inr (1, w)"
  using assms by (auto simp: patch_sepolicy_def)




section \<open>Properties of the boot sequence\<close>

lemma main_patch_rootfs_continues:
  assumes "\<not> access (filesys w) ''/etc/recovery.fstab''"
    and "patch_ramdisk e (merge_overlay e w) = Inr w2"
    and "patch_sepolicy e w2 = Inr (status, w3)"
  shows "main_patch_rootfs e w = dump_binaries e w3"
  using assms by (simp add: main_patch_rootfs_def)

lemma main_cleanup_last:
  "last (trace (main_cleanup e cmd argv w)) = Execv ''/init'' argv"
  by (simp add: main_cleanup_def call_def Let_def)

lemma boot_ends_in_cleanup:
  assumes "boot e argv dev0 w = Inr w'"
  shows "\<exists>cmd w3 w4. main_patch_rootfs e w3 = Inr w4 \<and> w' = main_cleanup e cmd argv w4"
  using assms
  by (auto simp: boot_def Let_def split: prod.splits sum.splits)


lemma boot_example:
  "\<exists>w'. boot example_env [''/init''] device_zero (world_of fs_boot) = Inr w'
     \<and> trace w' = [Mount ''proc'' ''/proc'' ''proc'' MS_NONE, Umount ''/proc'',
          Mount ''sysfs'' ''/sys'' ''sysfs'' MS_NONE, Mount [] ''/system'' ''ext4'' MS_RDONLY,
          Umount ''/system'', Umount ''/vendor'', Execv ''/init'' [''/init'']]
     \<and> file_content (filesys w') ''/init.magisk.rc'' = Some ''service magisk_daemon /sbin/magisk''
     \<and> file_content (filesys w') ''/sbin/magisk'' = Some (''ELF:aaaaaaaa'' @ [NUL] @ '':end'')
     \<and> ino_of (filesys w') ''/sbin/magiskinit'' = Some 1
     \<and> \<not> access (filesys w') ''/sepolicy''"
  by (simp add: boot_eval policy_eval cmdline_eval fs_eval mem_eval dev_eval
      example_env_def world_of_def fs_boot_def device_zero_def init_image_def
      mode_0_def mode_0555_def mode_0600_def mode_0666_def mode_0750_def mode_0755_def)

text \<open>
  Claim C8. When no policy source applies, \<open>patch_sepolicy\<close> returns 1 to its caller and
  leaves the state as it was. \<open>main\<close> drops the status: whatever status and state
  \<open>patch_sepolicy\<close> returns, the patch phase goes on with the extraction of the payloads
  on that state. And every run of the boot sequence that does not fault goes through the
  patch phase and the clean-up and ends with \<open>execv("/init", argv)\<close>.
\<close>

theorem policy_failure_not_checked:
  "(\<not> access (filesys w) ''/sepolicy''
      \<and> (\<not> access (filesys w) (SPLIT_PRECOMPILE e)
           \<or> verify_precompiled e (filesys w) = Inr False)
      \<and> \<not> access (filesys w) (SPLIT_PLAT_CIL e) \<longrightarrow>
    patch_sepolicy e w = Inr (1, w))
   \<and> (\<forall>w2 status w3.
        \<not> access (filesys w) ''/etc/recovery.fstab''
      \<and> patch_ramdisk e (merge_overlay e w) = Inr w2
      \<and> patch_sepolicy e w2 = Inr (status, w3) \<longrightarrow>
        main_patch_rootfs e w = dump_binaries e w3)
   \<and> (\<forall>w'. boot e argv dev w = Inr w' \<longrightarrow>
        (\<exists>cmd w3 w4. main_patch_rootfs e w3 = Inr w4 \<and> w' = main_cleanup e cmd argv w4)
      \<and> last (trace w') = Execv ''/init'' argv)"
proof (intro conjI impI allI)
  assume "\<not> access (filesys w) ''/sepolicy''
      \<and> (\<not> access (filesys w) (SPLIT_PRECOMPILE e)
           \<or> verify_precompiled e (filesys w) = Inr False)
      \<and> \<not> access (filesys w) (SPLIT_PLAT_CIL e)"
  then show "patch_sepolicy e w = Inr (1, w)"
    using patch_sepolicy_none [of w e] by blast
next
  fix w2 status w3
  assume "\<not> access (filesys w) ''/etc/recovery.fstab''
      \<and> patch_ramdisk e (merge_overlay e w) = Inr w2
      \<and> patch_sepolicy e w2 = Inr (status, w3)"
  then show "main_patch_rootfs e w = dump_binaries e w3"
    using main_patch_rootfs_continues [of w e w2 status w3] by blast
next
  fix w'
  assume b: "boot e argv dev w = Inr w'"
  from boot_ends_in_cleanup [OF b]
  show "\<exists>cmd w3 w4. main_patch_rootfs e w3 = Inr w4 \<and> w' = main_cleanup e cmd argv w4" .
  then show "last (trace w') = Execv ''/init'' argv"
    using main_cleanup_last by auto
qed

theorem policy_failure_not_checked_witness:
  "patch_sepolicy example_env (world_of fs_boot) = Inr (1, world_of fs_boot)
   \<and> (\<exists>w'. main_patch_rootfs example_env (world_of fs_boot) = Inr w'
         \<and> file_content (filesys w') ''/init.magisk.rc'' = Some ''service magisk_daemon /sbin/magisk''
         \<and> file_content (filesys w') ''/sbin/magisk'' = Some (''ELF:aaaaaaaa'' @ [NUL] @ '':end'')
         \<and> \<not> access (filesys w') ''/sepolicy'')
   \<and> (\<exists>w'. boot example_env [''/init''] device_zero (world_of fs_boot) = Inr w'
         \<and> trace w' = [Mount ''proc'' ''/proc'' ''proc'' MS_NONE, Umount ''/proc'',
              Mount ''sysfs'' ''/sys'' ''sysfs'' MS_NONE, Mount [] ''/system'' ''ext4'' MS_RDONLY,
              Umount ''/system'', Umount ''/vendor'', Execv ''/init'' [''/init'']]
         \<and> last (trace w') = Execv ''/init'' [''/init'']
         \<and> file_content (filesys w') ''/init.magisk.rc'' = Some ''service magisk_daemon /sbin/magisk''
         \<and> ino_of (filesys w') ''/sbin/magiskinit'' = Some 1
         \<and> \<not> access (filesys w') ''/sepolicy'')"
proof -
  let ?e = example_env and ?w = "world_of fs_boot"
  have a: "\<not> access (filesys ?w) ''/sepolicy''
      \<and> (\<not> access (filesys ?w) (SPLIT_PRECOMPILE ?e)
           \<or> verify_precompiled ?e (filesys ?w) = Inr False)
      \<and> \<not> access (filesys ?w) (SPLIT_PLAT_CIL ?e)"
    by (simp add: example_env_def world_of_def fs_boot_def fs_eval)
  note r1 = policy_failure_not_checked [where w = ?w and e = ?e,
      THEN conjunct1, rule_format, OF a]
  have "\<exists>w2. (\<not> access (filesys ?w) ''/etc/recovery.fstab''
          \<and> patch_ramdisk ?e (merge_overlay ?e ?w) = Inr w2
          \<and> patch_sepolicy ?e w2 = Inr (1, w2))
        \<and> (\<exists>w'. dump_binaries ?e w2 = Inr w'
         \<and> file_content (filesys w') ''/init.magisk.rc'' = Some ''service magisk_daemon /sbin/magisk''
         \<and> file_content (filesys w') ''/sbin/magisk'' = Some (''ELF:aaaaaaaa'' @ [NUL] @ '':end'')
         \<and> \<not> access (filesys w') ''/sepolicy'')"
    by (simp add: boot_eval policy_eval fs_eval mem_eval
        example_env_def world_of_def fs_boot_def
        mode_0_def mode_0555_def mode_0600_def mode_0666_def mode_0750_def mode_0755_def)
  then obtain w2 w' where
    h: "\<not> access (filesys ?w) ''/etc/recovery.fstab''
          \<and> patch_ramdisk ?e (merge_overlay ?e ?w) = Inr w2
          \<and> patch_sepolicy ?e w2 = Inr (1, w2)"
    and d: "dump_binaries ?e w2 = Inr w'"
      "file_content (filesys w') ''/init.magisk.rc'' = Some ''service magisk_daemon /sbin/magisk''"
      "file_content (filesys w') ''/sbin/magisk'' = Some (''ELF:aaaaaaaa'' @ [NUL] @ '':end'')"
      "\<not> access (filesys w') ''/sepolicy''"
    by blast
  note r2 = policy_failure_not_checked [where w = ?w and e = ?e,
      THEN conjunct2, THEN conjunct1, rule_format, OF h]
  have r2': "\<exists>w'. main_patch_rootfs ?e ?w = Inr w'
         \<and> file_content (filesys w') ''/init.magisk.rc'' = Some ''service magisk_daemon /sbin/magisk''
         \<and> file_content (filesys w') ''/sbin/magisk'' = Some (''ELF:aaaaaaaa'' @ [NUL] @ '':end'')
         \<and> \<not> access (filesys w') ''/sepolicy''"
    using r2 d by simp
  from boot_example obtain b where
    b: "boot ?e [''/init''] device_zero ?w = Inr b"
      "trace b = [Mount ''proc'' ''/proc'' ''proc'' MS_NONE, Umount ''/proc'',
              Mount ''sysfs'' ''/sys'' ''sysfs'' MS_NONE, Mount [] ''/system'' ''ext4'' MS_RDONLY,
              Umount ''/system'', Umount ''/vendor'', Execv ''/init'' [''/init'']]"
      "file_content (filesys b) ''/init.magisk.rc'' = Some ''service magisk_daemon /sbin/magisk''"
      "ino_of (filesys b) ''/sbin/magiskinit'' = Some 1"
      "\<not> access (filesys b) ''/sepolicy''"
    by blast
  note r3 = policy_failure_not_checked [where w = ?w and e = ?e and argv = "[''/init'']"
      and dev = device_zero, THEN conjunct2, THEN conjunct2, rule_format, OF b(1), THEN conjunct2]
  have r3': "\<exists>w'. boot ?e [''/init''] device_zero ?w = Inr w'
         \<and> trace w' = [Mount ''proc'' ''/proc'' ''proc'' MS_NONE, Umount ''/proc'',
              Mount ''sysfs'' ''/sys'' ''sysfs'' MS_NONE, Mount [] ''/system'' ''ext4'' MS_RDONLY,
              Umount ''/system'', Umount ''/vendor'', Execv ''/init'' [''/init'']]
         \<and> last (trace w') = Execv ''/init'' [''/init'']
         \<and> file_content (filesys w') ''/init.magisk.rc'' = Some ''service magisk_daemon /sbin/magisk''
         \<and> ino_of (filesys w') ''/sbin/magiskinit'' = Some 1
         \<and> \<not> access (filesys w') ''/sepolicy''"
    using b r3 by blast
  from r1 r2' r3' show ?thesis by (intro conjI)
qed

end
